theory Spec2Isabelle
  imports
    Main
    "HOL-Library.Word"
    "HOL-Library.Char_ord"
    "HOL-Library.List_Lexorder"
    "HOL-Library.Product_Lexorder"
    "HOL-Library.Multiset"
begin

unbundle bit_operations_syntax

section \<open>Common conventions\<close>

text \<open>
  The development embeds parts of the ORC sources (\<^verbatim>\<open>orc.cpp\<close>, \<^verbatim>\<open>parse_file.cpp\<close>,
  \<^verbatim>\<open>string_pool.cpp\<close>, \<^verbatim>\<open>parse_file.hpp\<close>, \<^verbatim>\<open>dwarf_structs.hpp\<close>).
  A C++ \<^verbatim>\<open>assert\<close> is a branch of the model: a failed assertion ends the call with
  \<open>Inl AssertionFailed\<close>. Behaviour the C++ standard leaves undefined is a branch as well
  (\<open>Inl UndefinedBehaviour\<close>), and a thrown \<^verbatim>\<open>std::runtime_error\<close> is \<open>Inl (RuntimeError msg)\<close>.
  \<^verbatim>\<open>std::size_t\<close> and pointers are 64-bit words, \<^verbatim>\<open>std::uint32_t\<close> is a 32-bit word.
\<close>

datatype error = AssertionFailed | UndefinedBehaviour | RuntimeError string

text \<open>
  A \<^verbatim>\<open>pool_string\<close> holds one pointer \<^verbatim>\<open>_data\<close> into the arena of the string pool. An
  arena address names the pool (one of 23), the pond (slab) inside the pool and the byte
  offset inside the pond. \<open>None\<close> is \<^verbatim>\<open>nullptr\<close>, the default handle.
\<close>

type_synonym arena_addr = "nat \<times> nat \<times> nat"
type_synonym pool_string = "arena_addr option"

section \<open>Object-file ancestry (\<^verbatim>\<open>dwarf_structs.hpp\<close>)\<close>

text \<open>
  \<^verbatim>\<open>struct object_ancestry { std::array<pool_string, 5> _ancestors; std::size_t _count{0}; ... }\<close>.
  The array is a function on indices; only the indices \<open>0..4\<close> exist in the C++ object.
\<close>

record object_ancestry =
  oa_ancestors :: "nat \<Rightarrow> pool_string"
  oa_count :: "64 word"

text \<open>\<^verbatim>\<open>_ancestors.size()\<close>\<close>

definition ancestors_size :: "64 word" where
  "ancestors_size = 5"

text \<open>A default-constructed ancestry: five default handles, \<^verbatim>\<open>_count{0}\<close>.\<close>

definition fresh_ancestry :: object_ancestry where
  "fresh_ancestry = \<lparr>oa_ancestors = (\<lambda>_. None), oa_count = 0\<rparr>"

text \<open>
  \<^verbatim>\<open>void emplace_back(pool_string&& ancestor) {
      assert((_count + 1) < _ancestors.size());
      _ancestors[_count++] = std::move(ancestor); }\<close>
  The sum \<^verbatim>\<open>_count + 1\<close> wraps around at \<open>2^64\<close>: with \<^verbatim>\<open>_count\<close> at its maximum the assertion
  passes and the write goes beyond the array, which is undefined behaviour.
\<close>

definition emplace_back :: "pool_string \<Rightarrow> object_ancestry \<Rightarrow> error + object_ancestry" where
  "emplace_back ancestor a =
     (if \<not> (oa_count a + 1 < ancestors_size) then Inl AssertionFailed
      else if \<not> (oa_count a < ancestors_size) then Inl UndefinedBehaviour
      else Inr (a\<lparr>oa_ancestors := (oa_ancestors a)(unat (oa_count a) := ancestor),
                  oa_count := oa_count a + 1\<rparr>))"

text \<open>
  \<^verbatim>\<open>auto& back() { assert(_count); return _ancestors[_count]; }\<close>
  Reading an index beyond the array is undefined behaviour.
\<close>

definition back_ancestor :: "object_ancestry \<Rightarrow> error + pool_string" where
  "back_ancestor a =
     (if oa_count a = 0 then Inl AssertionFailed
      else if \<not> (oa_count a < ancestors_size) then Inl UndefinedBehaviour
      else Inr (oa_ancestors a (unat (oa_count a))))"

text \<open>A sequence of \<^verbatim>\<open>emplace_back\<close> calls, in order, stopping at the first failed assertion.\<close>

fun emplace_all :: "pool_string list \<Rightarrow> object_ancestry \<Rightarrow> error + object_ancestry" where
  "emplace_all [] a = Inr a"
| "emplace_all (n # ns) a =
     (case emplace_back n a of Inl e \<Rightarrow> Inl e | Inr a' \<Rightarrow> emplace_all ns a')"

text \<open>
  An ancestry that holds one name and whose five slots hold five distinct handles (slot \<open>i\<close>
  points at offset \<open>i\<close>), to tell the slots apart.
\<close>

definition numbered_ancestry :: object_ancestry where
  "numbered_ancestry = \<lparr>oa_ancestors = (\<lambda>i. Some (0, 0, i)), oa_count = 1\<rparr>"

section \<open>The byte reader \<^verbatim>\<open>freader\<close> (\<^verbatim>\<open>parse_file.hpp\<close>, \<^verbatim>\<open>parse_file.cpp\<close>)\<close>

text \<open>
  Pointers into mapped memory are 64-bit addresses; the mapped bytes are a function from
  addresses to bytes. \<^verbatim>\<open>std::istream::off_type\<close> and \<^verbatim>\<open>std::ptrdiff_t\<close> are signed 64-bit
  integers in two's complement, so the mixed signed/unsigned arithmetic of the source is
  arithmetic of 64-bit words.
\<close>

type_synonym ptr = "64 word"
type_synonym memory = "ptr \<Rightarrow> 8 word"

text \<open>
  \<^verbatim>\<open>struct filebuf { file_descriptor _descriptor; mmap_buffer _buffer; }\<close>: two shared
  pointers, \<open>None\<close> when empty. \<^verbatim>\<open>explicit operator bool() const { return _descriptor && _buffer; }\<close>
  and \<^verbatim>\<open>const char* get() const { return _buffer.get(); }\<close>.
\<close>

record filebuf =
  fb_descriptor :: "int option"
  fb_buffer :: "ptr option"

definition filebuf_ok :: "filebuf \<Rightarrow> bool" where
  "filebuf_ok b = (fb_descriptor b \<noteq> None \<and> fb_buffer b \<noteq> None)"

definition filebuf_get :: "filebuf \<Rightarrow> ptr" where
  "filebuf_get b = (case fb_buffer b of None \<Rightarrow> 0 | Some a \<Rightarrow> a)"

text \<open>\<^verbatim>\<open>struct freader { filebuf _filebuf; const char* _f; const char* _p; const char* _l; }\<close>\<close>

record freader =
  fr_filebuf :: filebuf
  fr_f :: ptr
  fr_p :: ptr
  fr_l :: ptr

text \<open>\<^verbatim>\<open>explicit operator bool() const { return static_cast<bool>(_filebuf) && _p <= _l; }\<close>\<close>

definition freader_ok :: "freader \<Rightarrow> bool" where
  "freader_ok s = (filebuf_ok (fr_filebuf s) \<and> fr_p s \<le> fr_l s)"

text \<open>\<^verbatim>\<open>std::size_t size() const { return _l - _p; }\<close>\<close>

definition freader_size :: "freader \<Rightarrow> 64 word" where
  "freader_size s = fr_l s - fr_p s"

text \<open>\<^verbatim>\<open>std::size_t tellg() const { return _p - _f; }\<close>\<close>

definition tellg :: "freader \<Rightarrow> 64 word" where
  "tellg s = fr_p s - fr_f s"

text \<open>\<^verbatim>\<open>void seekg(std::istream::off_type offset) { assert(*this); _p = _f + offset; }\<close>\<close>

definition seekg_abs :: "64 word \<Rightarrow> freader \<Rightarrow> error + freader" where
  "seekg_abs offset s =
     (if \<not> freader_ok s then Inl AssertionFailed
      else Inr (s\<lparr>fr_p := fr_f s + offset\<rparr>))"

text \<open>
  \<^verbatim>\<open>std::ios::seekdir\<close>: \<^verbatim>\<open>beg\<close>, \<^verbatim>\<open>cur\<close>, \<^verbatim>\<open>end\<close>, and the end-of-options marker of
  libstdc++ that the \<^verbatim>\<open>default:\<close> branch of \<^verbatim>\<open>seekg\<close> rejects with \<^verbatim>\<open>assert(false)\<close>.
\<close>

datatype seekdir = ios_beg | ios_cur | ios_end | ios_seekdir_marker

text \<open>
  \<^verbatim>\<open>void seekg(std::istream::off_type offset, std::ios::seekdir dir) {
      assert(*this);
      switch (dir) {
          case std::ios::beg: { _p = _f + offset; } break;
          case std::ios::cur: { _p += offset; } break;
          case std::ios::end: { _p = _f + (size() - offset); } break;
          default: { assert(false); } break; } }\<close>
\<close>

definition seekg :: "64 word \<Rightarrow> seekdir \<Rightarrow> freader \<Rightarrow> error + freader" where
  "seekg offset dir s =
     (if \<not> freader_ok s then Inl AssertionFailed
      else case dir of
          ios_beg \<Rightarrow> Inr (s\<lparr>fr_p := fr_f s + offset\<rparr>)
        | ios_cur \<Rightarrow> Inr (s\<lparr>fr_p := fr_p s + offset\<rparr>)
        | ios_end \<Rightarrow> Inr (s\<lparr>fr_p := fr_f s + (freader_size s - offset)\<rparr>)
        | ios_seekdir_marker \<Rightarrow> Inl AssertionFailed)"

text \<open>The \<open>n\<close> bytes of memory that start at an address, as \<^verbatim>\<open>std::memcpy\<close> copies them.\<close>

primrec mem_bytes :: "memory \<Rightarrow> ptr \<Rightarrow> nat \<Rightarrow> 8 word list" where
  "mem_bytes m a 0 = []"
| "mem_bytes m a (Suc n) = m a # mem_bytes m (a + 1) n"

text \<open>
  \<^verbatim>\<open>void read(char* p, std::size_t n) { assert(*this); std::memcpy(p, _p, n); _p += n; }\<close>
  The copied bytes are returned as a list.
\<close>

definition read_bytes :: "memory \<Rightarrow> nat \<Rightarrow> freader \<Rightarrow> error + (8 word list \<times> freader)" where
  "read_bytes m n s =
     (if \<not> freader_ok s then Inl AssertionFailed
      else Inr (mem_bytes m (fr_p s) n, s\<lparr>fr_p := fr_p s + word_of_nat n\<rparr>))"

text \<open>\<^verbatim>\<open>char get() { assert(*this); return *_p++; }\<close>\<close>

definition get_char :: "memory \<Rightarrow> freader \<Rightarrow> error + (8 word \<times> freader)" where
  "get_char m s =
     (if \<not> freader_ok s then Inl AssertionFailed
      else Inr (m (fr_p s), s\<lparr>fr_p := fr_p s + 1\<rparr>))"

text \<open>
  The operating system: \<^verbatim>\<open>sysconf(_SC_PAGESIZE)\<close> and the address that
  \<^verbatim>\<open>mmap(nullptr, size, PROT_READ, MAP_SHARED, fd, start)\<close> returns for a descriptor, a file
  offset and a size (\<open>None\<close> is \<^verbatim>\<open>MAP_FAILED\<close>).
\<close>

record os_env =
  os_page_size :: "64 word"
  os_mmap :: "int \<Rightarrow> 64 word \<Rightarrow> 64 word \<Rightarrow> ptr option"

text \<open>
  \<^verbatim>\<open>mmap_buffer::mmap_buffer(int fd, std::size_t start, std::size_t end) {
      auto size = end - start;
      void* ptr = mmap(nullptr, size, PROT_READ, MAP_SHARED, fd, start);
      if (ptr == MAP_FAILED) throw std::runtime_error("bad mmap"); ... }\<close>
\<close>

definition mmap_buffer :: "os_env \<Rightarrow> int \<Rightarrow> 64 word \<Rightarrow> 64 word \<Rightarrow> error + ptr option" where
  "mmap_buffer env fd start end_off =
     (case os_mmap env fd start (end_off - start) of
        None \<Rightarrow> Inl (RuntimeError ''bad mmap'')
      | Some a \<Rightarrow> Inr (Some a))"

text \<open>
  \<^verbatim>\<open>auto filebuf::remmap(std::size_t start, std::size_t end) {
      const auto page_size = sysconf(_SC_PAGESIZE);
      const auto start_page = start / page_size;
      const auto start_page_offset = start_page * page_size;
      const auto end_page = end / page_size + 1;
      const auto end_page_offset = end_page * page_size;
      assert(start < end);
      assert(start_page_offset <= start);
      assert(end_page_offset >= end);
      filebuf result;
      result._descriptor = _descriptor;
      result._buffer = mmap_buffer(*_descriptor, start_page_offset, end_page_offset);
      return result; }\<close>
  Division by a zero page size and dereferencing an empty descriptor are undefined.
\<close>

definition remmap :: "os_env \<Rightarrow> 64 word \<Rightarrow> 64 word \<Rightarrow> filebuf \<Rightarrow> error + filebuf" where
  "remmap env start end_off b =
     (if os_page_size env = 0 then Inl UndefinedBehaviour
      else
        let page_size = os_page_size env;
            start_page = start div page_size;
            start_page_offset = start_page * page_size;
            end_page = end_off div page_size + 1;
            end_page_offset = end_page * page_size
        in if \<not> start < end_off then Inl AssertionFailed
           else if \<not> start_page_offset \<le> start then Inl AssertionFailed
           else if \<not> end_page_offset \<ge> end_off then Inl AssertionFailed
           else case fb_descriptor b of
               None \<Rightarrow> Inl UndefinedBehaviour
             | Some fd \<Rightarrow>
                (case mmap_buffer env fd start_page_offset end_page_offset of
                   Inl e \<Rightarrow> Inl e
                 | Inr buf \<Rightarrow> Inr \<lparr>fb_descriptor = fb_descriptor b, fb_buffer = buf\<rparr>))"

text \<open>
  \<^verbatim>\<open>freader freader::subbuf(std::size_t end_pos) const {
      freader result(*this);
      auto pos = _p - _f;
      auto new_size = end_pos - pos;
      result._filebuf = result._filebuf.remmap(pos, end_pos);
      // recalculate the new _p given the page offset of the buffer
      result._f = result._filebuf.get();
      result._p = _f - pos;
      result._l = _f + new_size;
      return result; }\<close>
  In the last two assignments \<^verbatim>\<open>_f\<close> is the member of \<^verbatim>\<open>*this\<close>, the parent reader.
\<close>

definition subbuf :: "os_env \<Rightarrow> 64 word \<Rightarrow> freader \<Rightarrow> error + freader" where
  "subbuf env end_pos s =
     (let pos = fr_p s - fr_f s;
          new_size = end_pos - pos
      in case remmap env pos end_pos (fr_filebuf s) of
           Inl e \<Rightarrow> Inl e
         | Inr fb \<Rightarrow>
             Inr \<lparr>fr_filebuf = fb,
                  fr_f = filebuf_get fb,
                  fr_p = fr_f s - pos,
                  fr_l = fr_f s + new_size\<rparr>)"

text \<open>
  A concrete reader and operating system, used to evaluate the reader's operations: a file of
  ten bytes mapped at address \<open>0x1000\<close>, descriptor 3, read position 4; pages of 4096 bytes
  and an \<^verbatim>\<open>mmap\<close> that places every new mapping at address \<open>0x20000\<close>.
\<close>

definition example_reader :: freader where
  "example_reader =
     \<lparr>fr_filebuf = \<lparr>fb_descriptor = Some 3, fb_buffer = Some 0x1000\<rparr>,
      fr_f = 0x1000, fr_p = 0x1004, fr_l = 0x100A\<rparr>"

definition example_env :: os_env where
  "example_env = \<lparr>os_page_size = 4096, os_mmap = (\<lambda>fd start sz. Some 0x20000)\<rparr>"

section \<open>File-format detection (\<^verbatim>\<open>parse_file.cpp\<close>)\<close>

text \<open>
  A value of an integer type is read from memory in the byte order of the host
  (\<^verbatim>\<open>s.read(reinterpret_cast<char*>(&header), sizeof(header))\<close>); \<open>little\<close> is
  \<^verbatim>\<open>std::endian::native == std::endian::little\<close>.
\<close>

fun le_word :: "8 word list \<Rightarrow> 'a::len word" where
  "le_word [] = 0"
| "le_word (b # bs) = ucast b OR push_bit 8 (le_word bs)"

primrec le_bytes :: "nat \<Rightarrow> 'a::len word \<Rightarrow> 8 word list" where
  "le_bytes 0 w = []"
| "le_bytes (Suc n) w = ucast w # le_bytes n (drop_bit 8 w)"

definition native_word :: "bool \<Rightarrow> 8 word list \<Rightarrow> 'a::len word" where
  "native_word little bs = le_word (if little then bs else rev bs)"

text \<open>
  \<^verbatim>\<open>template <typename T> void endian_swap(T& c)\<close> reverses the bytes of the object in
  place; instantiated at \<^verbatim>\<open>std::uint32_t\<close>.
\<close>

definition endian_swap :: "32 word \<Rightarrow> 32 word" where
  "endian_swap c = le_word (rev (le_bytes 4 c))"

text \<open>
  Modelled from the spec: the magic numbers and cputype codes of \<^verbatim>\<open>orc/mach_types.hpp\<close>
  (section 6, "File formats recognized" and "Mach-O cputypes"), with the values of the
  system's Mach-O headers. The multi-character literals \<^verbatim>\<open>'!<ar'\<close> and \<^verbatim>\<open>'ra<!'\<close> have the
  values the compilers give them (first character most significant).
\<close>

definition MH_MAGIC :: "32 word" where "MH_MAGIC = 0xFEEDFACE"
definition MH_CIGAM :: "32 word" where "MH_CIGAM = 0xCEFAEDFE"
definition MH_MAGIC_64 :: "32 word" where "MH_MAGIC_64 = 0xFEEDFACF"
definition MH_CIGAM_64 :: "32 word" where "MH_CIGAM_64 = 0xCFFAEDFE"
definition FAT_MAGIC :: "32 word" where "FAT_MAGIC = 0xCAFEBABE"
definition FAT_CIGAM :: "32 word" where "FAT_CIGAM = 0xBEBAFECA"
definition FAT_MAGIC_64 :: "32 word" where "FAT_MAGIC_64 = 0xCAFEBABF"
definition FAT_CIGAM_64 :: "32 word" where "FAT_CIGAM_64 = 0xBFBAFECA"
definition AR_MAGIC :: "32 word" where "AR_MAGIC = 0x213C6172"
definition AR_CIGAM :: "32 word" where "AR_CIGAM = 0x72613C21"
definition CPU_ARCH_ABI64 :: "32 word" where "CPU_ARCH_ABI64 = 0x01000000"
definition CPU_ARCH_ABI64_32 :: "32 word" where "CPU_ARCH_ABI64_32 = 0x02000000"
definition CPU_TYPE_X86 :: "32 word" where "CPU_TYPE_X86 = 7"
definition CPU_TYPE_X86_64 :: "32 word" where "CPU_TYPE_X86_64 = CPU_TYPE_X86 OR CPU_ARCH_ABI64"
definition CPU_TYPE_ARM :: "32 word" where "CPU_TYPE_ARM = 12"
definition CPU_TYPE_ARM64 :: "32 word" where "CPU_TYPE_ARM64 = CPU_TYPE_ARM OR CPU_ARCH_ABI64"
definition CPU_TYPE_ARM64_32 :: "32 word" where
  "CPU_TYPE_ARM64_32 = CPU_TYPE_ARM OR CPU_ARCH_ABI64_32"

text \<open>\<^verbatim>\<open>enum class arch : std::uint8_t { unknown, x86, x86_64, arm, arm64, arm64_32 }\<close>\<close>

datatype arch = arch_unknown | arch_x86 | arch_x86_64 | arch_arm | arch_arm64 | arch_arm64_32

text \<open>\<^verbatim>\<open>struct file_details\<close> with its \<^verbatim>\<open>enum class format { unknown, macho, ar, fat }\<close>.\<close>

datatype file_format = format_unknown | format_macho | format_ar | format_fat

record file_details =
  fd_offset :: "64 word"
  fd_format :: file_format
  fd_arch :: arch
  fd_is_64_bit :: bool
  fd_needs_byteswap :: bool

definition default_file_details :: file_details where
  "default_file_details =
     \<lparr>fd_offset = 0, fd_format = format_unknown, fd_arch = arch_unknown,
      fd_is_64_bit = False, fd_needs_byteswap = False\<rparr>"

text \<open>
  The lambda that \<^verbatim>\<open>detect_file\<close> runs under \<^verbatim>\<open>temp_seek\<close> (lines 38 to 92 of
  \<^verbatim>\<open>parse_file.cpp\<close>). The result carries the lines written through \<^verbatim>\<open>cerr_safe\<close>.
\<close>

definition detect_file_body ::
  "bool \<Rightarrow> memory \<Rightarrow> freader \<Rightarrow> error + (file_details \<times> string list \<times> freader)" where
  "detect_file_body little m s =
     (let result = default_file_details\<lparr>fd_offset := tellg s\<rparr> in
      case read_bytes m 4 s of
        Inl e \<Rightarrow> Inl e
      | Inr (hbytes, s1) \<Rightarrow>
          let header = (native_word little hbytes :: 32 word);
              result = (if header = MH_MAGIC \<or> header = MH_CIGAM \<or> header = MH_MAGIC_64 \<or>
                           header = MH_CIGAM_64
                        then result\<lparr>fd_format := format_macho\<rparr>
                        else if header = AR_CIGAM \<or> header = AR_MAGIC
                        then result\<lparr>fd_format := format_ar\<rparr>
                        else if header = FAT_MAGIC \<or> header = FAT_CIGAM \<or>
                                header = FAT_MAGIC_64 \<or> header = FAT_CIGAM_64
                        then result\<lparr>fd_format := format_fat\<rparr>
                        else result);
              result = result\<lparr>fd_is_64_bit :=
                         header = MH_MAGIC_64 \<or> header = MH_CIGAM_64 \<or>
                         header = FAT_MAGIC_64 \<or> header = FAT_CIGAM_64\<rparr>;
              result = (if little
                        then result\<lparr>fd_needs_byteswap :=
                               header = MH_CIGAM \<or> header = MH_CIGAM_64 \<or>
                               header = FAT_CIGAM \<or> header = FAT_CIGAM_64 \<or>
                               header = AR_CIGAM\<rparr>
                        else result\<lparr>fd_needs_byteswap :=
                               header = MH_MAGIC \<or> header = MH_MAGIC_64 \<or>
                               header = FAT_MAGIC \<or> header = FAT_MAGIC_64 \<or>
                               header = AR_MAGIC\<rparr>)
          in if fd_format result = format_macho
             then (case read_bytes m 4 s1 of
                     Inl e \<Rightarrow> Inl e
                   | Inr (cbytes, s2) \<Rightarrow>
                       let cputype0 = (native_word little cbytes :: 32 word);
                           cputype = (if fd_needs_byteswap result then endian_swap cputype0
                                      else cputype0)
                       in if \<not> (((cputype AND CPU_ARCH_ABI64) \<noteq> 0) = fd_is_64_bit result)
                          then Inl AssertionFailed
                          else if cputype = CPU_TYPE_X86
                          then Inr (result\<lparr>fd_arch := arch_x86\<rparr>, [], s2)
                          else if cputype = CPU_TYPE_X86_64
                          then Inr (result\<lparr>fd_arch := arch_x86_64\<rparr>, [], s2)
                          else if cputype = CPU_TYPE_ARM
                          then Inr (result\<lparr>fd_arch := arch_arm\<rparr>, [], s2)
                          else if cputype = CPU_TYPE_ARM64
                          then Inr (result\<lparr>fd_arch := arch_arm64\<rparr>, [], s2)
                          else if cputype = CPU_TYPE_ARM64_32
                          then Inr (result\<lparr>fd_arch := arch_arm64\<rparr>, [], s2)
                          else Inr (result, [''WARN: Unknown Mach-O cputype''], s2))
             else Inr (result, [], s1))"

text \<open>
  \<^verbatim>\<open>file_details detect_file(freader& s) { return temp_seek(s, [&] { ... }); }\<close> with
  \<^verbatim>\<open>temp_seek(s, f) = temp_seek(s, 0, std::ios::cur, f)\<close>: the position is saved
  (\<^verbatim>\<open>posmark\<close>), the reader seeks by 0 from the current position, the lambda runs, and
  the destructor of \<^verbatim>\<open>posmark\<close> seeks back to the saved position.
\<close>

definition detect_file ::
  "bool \<Rightarrow> memory \<Rightarrow> freader \<Rightarrow> error + (file_details \<times> string list \<times> freader)" where
  "detect_file little m s =
     (let pos = tellg s in
      case seekg 0 ios_cur s of
        Inl e \<Rightarrow> Inl e
      | Inr s1 \<Rightarrow>
          (case detect_file_body little m s1 of
             Inl e \<Rightarrow> Inl e
           | Inr (result, warnings, s2) \<Rightarrow>
               (case seekg_abs pos s2 of
                  Inl e \<Rightarrow> Inl e
                | Inr s3 \<Rightarrow> Inr (result, warnings, s3))))"

text \<open>
  Memory that holds the bytes \<open>bs\<close> from address \<open>base\<close> on (and zero elsewhere), and a reader
  positioned at the start of a window over \<open>n\<close> such bytes.
\<close>

definition memory_of :: "ptr \<Rightarrow> 8 word list \<Rightarrow> memory" where
  "memory_of base bs = (\<lambda>a. if unat (a - base) < length bs then bs ! unat (a - base) else 0)"

definition reader_at :: "ptr \<Rightarrow> nat \<Rightarrow> freader" where
  "reader_at base n =
     \<lparr>fr_filebuf = \<lparr>fb_descriptor = Some 3, fb_buffer = Some base\<rparr>,
      fr_f = base, fr_p = base, fr_l = base + word_of_nat n\<rparr>"

text \<open>
  A 32-bit Mach-O image for \<^verbatim>\<open>arm64_32\<close> on a little-endian host: the magic \<open>0xFEEDFACE\<close>
  followed by the cputype \<open>0x0200000C\<close> (\<open>12 | CPU_ARCH_ABI64_32\<close>).
\<close>

definition arm64_32_image :: "8 word list" where
  "arm64_32_image = [0xCE, 0xFA, 0xED, 0xFE, 0x0C, 0x00, 0x00, 0x02]"

text \<open>The same image with the cputype \<open>0x0100000C\<close> (\<open>12 | CPU_ARCH_ABI64\<close>) and the 64-bit magic.\<close>

definition arm64_image :: "8 word list" where
  "arm64_image = [0xCF, 0xFA, 0xED, 0xFE, 0x0C, 0x00, 0x00, 0x01]"

section \<open>LEB128 decoding (\<^verbatim>\<open>parse_file.cpp\<close>)\<close>

text \<open>
  \<^verbatim>\<open>std::uint32_t uleb128(freader& s) {
      std::uint32_t result{0};
      std::size_t shift{0};
      while (true) {
          auto c = s.get();
          if (shift < 32) result |= (c & 0x7f) << shift;
          if (!(c & 0x80)) return result;
          shift += 7; } }\<close>
  The loop has no bound of its own, so it is a partial function: \<open>None\<close> is a loop that never
  returns. \<^verbatim>\<open>(c & 0x7f) << shift\<close> is an \<^verbatim>\<open>int\<close> shifted by less than 32, which wraps modulo
  \<open>2^32\<close> (C++20), as \<open>push_bit\<close> on a 32-bit word does.
\<close>

partial_function (option) uleb128_loop ::
  "memory \<Rightarrow> freader \<Rightarrow> 32 word \<Rightarrow> 64 word \<Rightarrow> (error + 32 word \<times> freader) option" where
  "uleb128_loop m s result shift =
     (case get_char m s of
        Inl e \<Rightarrow> Some (Inl e)
      | Inr (c, s') \<Rightarrow>
          let result' = (if shift < 32
                         then result OR push_bit (unat shift) (ucast (c AND 0x7f))
                         else result)
          in if c AND 0x80 = 0 then Some (Inr (result', s'))
             else uleb128_loop m s' result' (shift + 7))"

definition uleb128 :: "memory \<Rightarrow> freader \<Rightarrow> (error + 32 word \<times> freader) option" where
  "uleb128 m s = uleb128_loop m s 0 0"

text \<open>
  \<^verbatim>\<open>std::int32_t sleb128(freader& s) {
      std::int32_t result{0};
      std::size_t shift{0};
      bool sign{false};
      while (true) {
          auto c = s.get();
          result |= (c & 0x7f) << shift;
          shift += 7;
          if (!(c & 0x80)) { sign = c & 0x40; break; } }
      constexpr auto size_k{sizeof(result) * 8};
      if (sign && shift < size_k) { result |= -(1 << shift); }
      return result; }\<close>
  Here the shift has no guard: shifting an \<^verbatim>\<open>int\<close> by 32 or more is undefined behaviour.
  The loop returns the result, the shift, the sign flag and the reader.
\<close>

partial_function (option) sleb128_loop ::
  "memory \<Rightarrow> freader \<Rightarrow> 32 word \<Rightarrow> 64 word
     \<Rightarrow> (error + 32 word \<times> 64 word \<times> bool \<times> freader) option" where
  "sleb128_loop m s result shift =
     (case get_char m s of
        Inl e \<Rightarrow> Some (Inl e)
      | Inr (c, s') \<Rightarrow>
          if \<not> shift < 32 then Some (Inl UndefinedBehaviour)
          else
            let result' = result OR push_bit (unat shift) (ucast (c AND 0x7f));
                shift' = shift + 7
            in if c AND 0x80 = 0 then Some (Inr (result', shift', c AND 0x40 \<noteq> 0, s'))
               else sleb128_loop m s' result' shift')"

definition sleb128 :: "memory \<Rightarrow> freader \<Rightarrow> (error + 32 word \<times> freader) option" where
  "sleb128 m s =
     (case sleb128_loop m s 0 0 of
        None \<Rightarrow> None
      | Some (Inl e) \<Rightarrow> Some (Inl e)
      | Some (Inr (result, shift, sign, s')) \<Rightarrow>
          Some (Inr (if sign \<and> shift < 32 then result OR - (push_bit (unat shift) 1) else result,
                     s')))"

text \<open>
  The LEB128 format itself (DWARF, section 7.6), independent of the decoders. A byte sequence
  is well formed when it is not empty, every byte but the last has the continuation bit
  \<open>0x80\<close> and the last has not. Its unsigned value is the sum of its 7-bit groups, least
  significant group first; its signed value subtracts \<open>2 ^ (7 * length)\<close> when the bit \<open>0x40\<close> of
  the last group is set.
\<close>

fun leb_wellformed :: "8 word list \<Rightarrow> bool" where
  "leb_wellformed [] = False"
| "leb_wellformed [b] = (b AND 0x80 = 0)"
| "leb_wellformed (b # bs) = (b AND 0x80 \<noteq> 0 \<and> leb_wellformed bs)"

fun uleb_value :: "8 word list \<Rightarrow> nat" where
  "uleb_value [] = 0"
| "uleb_value (b # bs) = unat (b AND 0x7f) + 128 * uleb_value bs"

definition sleb_value :: "8 word list \<Rightarrow> int" where
  "sleb_value bs =
     int (uleb_value bs) - (if last bs AND 0x40 \<noteq> 0 then 2 ^ (7 * length bs) else 0)"

text \<open>
  The encoding of \<open>-1024\<close> in six bytes (the two-byte encoding \<open>80 78\<close> padded with sign groups).
\<close>

definition sleb_minus_1024_padded :: "8 word list" where
  "sleb_minus_1024_padded = [0x80, 0xF8, 0xFF, 0xFF, 0xFF, 0x7F]"

section \<open>DWARF structures (\<^verbatim>\<open>dwarf_structs.hpp\<close>)\<close>

text \<open>
  The codes \<^verbatim>\<open>dw::at\<close>, \<^verbatim>\<open>dw::form\<close> and \<^verbatim>\<open>dw::tag\<close> are enumerations of
  \<^verbatim>\<open>orc/dwarf_constants.hpp\<close>; they are natural numbers here. Modelled from the spec: the
  two attribute names the conflict analysis mentions, the sentinel \<^verbatim>\<open>dw::at::none\<close> (the value of
  a default-initialised \<^verbatim>\<open>dw::at _name{0}\<close>) and \<^verbatim>\<open>dw::at::type\<close> (\<open>DW_AT_type\<close>, \<open>0x49\<close> in DWARF).
\<close>

type_synonym dw_at = nat
type_synonym dw_form = nat

definition at_none :: dw_at where "at_none = 0"
definition at_type :: dw_at where "at_type = 0x49"

text \<open>
  \<^verbatim>\<open>enum class type { none = 0, passover = 1 << 0, uint = 1 << 1, sint = 1 << 2,
      string = 1 << 3, reference = 1 << 4, die = 1 << 5 }\<close>, a bit set over \<^verbatim>\<open>int\<close>.
\<close>

definition type_none :: "32 word" where "type_none = 0"
definition type_passover :: "32 word" where "type_passover = 1"
definition type_uint :: "32 word" where "type_uint = 2"
definition type_sint :: "32 word" where "type_sint = 4"
definition type_string :: "32 word" where "type_string = 8"
definition type_reference :: "32 word" where "type_reference = 16"
definition type_die :: "32 word" where "type_die = 32"

text \<open>
  \<^verbatim>\<open>struct attribute_value { enum type _type; std::uint64_t _uint; std::int64_t _int;
      pool_string _string; const struct die* _die; }\<close>. A \<^verbatim>\<open>die*\<close> is an address of the DIE
  store, \<open>None\<close> for \<^verbatim>\<open>nullptr\<close>.
\<close>

type_synonym die_ptr = "nat option"

record attribute_value =
  av_type :: "32 word"
  av_uint :: "64 word"
  av_int :: "64 word"
  av_string :: pool_string
  av_die :: die_ptr

text \<open>
  \<^verbatim>\<open>friend auto has_type(type x, type y) {
      return (static_cast<ut>(x) & static_cast<ut>(y)) != 0; }\<close> and
  \<^verbatim>\<open>bool has(enum type t) const { return has_type(type(), t); }\<close>
\<close>

definition has_type :: "32 word \<Rightarrow> 32 word \<Rightarrow> bool" where
  "has_type x y = (x AND y \<noteq> 0)"

definition av_has :: "attribute_value \<Rightarrow> 32 word \<Rightarrow> bool" where
  "av_has v t = has_type (av_type v) t"

text \<open>
  Modelled from the spec: \<^verbatim>\<open>operator==\<close> of \<^verbatim>\<open>pool_string\<close> (\<^verbatim>\<open>orc/string_pool.hpp\<close> is not
  among the sources): "Two handles compare equal iff they point to the same arena slot."
\<close>

definition pool_string_eq :: "pool_string \<Rightarrow> pool_string \<Rightarrow> bool" where
  "pool_string_eq x y = (x = y)"

text \<open>
  \<^verbatim>\<open>inline bool operator==(const attribute_value& x, const attribute_value& y) {
      if (x.has(attribute_value::type::string)) return x._string == y._string;
      if (x.has(attribute_value::type::uint)) return x._uint == y._uint;
      if (x.has(attribute_value::type::sint)) return x._int == y._int;
      return x._type == y._type; }\<close>
\<close>

definition attribute_value_eq :: "attribute_value \<Rightarrow> attribute_value \<Rightarrow> bool" where
  "attribute_value_eq x y =
     (if av_has x type_string then pool_string_eq (av_string x) (av_string y)
      else if av_has x type_uint then av_uint x = av_uint y
      else if av_has x type_sint then av_int x = av_int y
      else av_type x = av_type y)"

text \<open>\<^verbatim>\<open>struct attribute { dw::at _name{0}; dw::form _form{0}; attribute_value _value; }\<close>\<close>

record attribute =
  a_name :: dw_at
  a_form :: dw_form
  a_value :: attribute_value

text \<open>
  \<^verbatim>\<open>inline bool operator==(const attribute& x, const attribute& y) {
      return x._name == y._name && x._form == y._form && x._value == y._value; }\<close>
\<close>

definition attribute_eq :: "attribute \<Rightarrow> attribute \<Rightarrow> bool" where
  "attribute_eq x y =
     (a_name x = a_name y \<and> a_form x = a_form y \<and> attribute_value_eq (a_value x) (a_value y))"

text \<open>An \<^verbatim>\<open>attribute_sequence\<close> wraps a \<^verbatim>\<open>std::vector<attribute>\<close>.\<close>

type_synonym attribute_sequence = "attribute list"







section \<open>Attribute conflicts (\<^verbatim>\<open>orc.cpp\<close>)\<close>

text \<open>
  \<^verbatim>\<open>bool type_equivalent(const attribute& x, const attribute& y) {
      if (x.has(attribute_value::type::reference) && y.has(attribute_value::type::reference) &&
          x.reference() == y.reference()) { return true; }
      if (x.has(attribute_value::type::string) && y.has(attribute_value::type::string) &&
          x.string_hash() == y.string_hash()) { return true; }
      return false; }\<close>
  \<^verbatim>\<open>reference()\<close> returns \<^verbatim>\<open>_uint\<close> and \<^verbatim>\<open>string_hash()\<close> returns \<^verbatim>\<open>_string.hash()\<close>; each asserts
  the type bit that the guard before it has just tested. The hash of a handle is a parameter
  (\<^verbatim>\<open>pool_string::hash\<close> reads it from the arena).
\<close>

definition type_equivalent :: "(pool_string \<Rightarrow> 64 word) \<Rightarrow> attribute \<Rightarrow> attribute \<Rightarrow> bool" where
  "type_equivalent string_hash x y =
     (if av_has (a_value x) type_reference \<and> av_has (a_value y) type_reference \<and>
         av_uint (a_value x) = av_uint (a_value y) then True
      else if av_has (a_value x) type_string \<and> av_has (a_value y) type_string \<and>
         string_hash (av_string (a_value x)) = string_hash (av_string (a_value y)) then True
      else False)"

text \<open>
  \<^verbatim>\<open>std::find_if(first, last, [&](auto& x) { return name == x._name; })\<close>: the first attribute
  with the name, \<open>None\<close> for \<^verbatim>\<open>last\<close>.
\<close>

fun find_by_name :: "dw_at \<Rightarrow> attribute_sequence \<Rightarrow> attribute option" where
  "find_by_name name [] = None"
| "find_by_name name (a # as) = (if name = a_name a then Some a else find_by_name name as)"

text \<open>
  \<^verbatim>\<open>dw::at find_attribute_conflict(const attribute_sequence& x, const attribute_sequence& y)\<close>.
  The first loop (lines 73 to 88) walks \<open>x\<close>; \<open>Some name\<close> is \<^verbatim>\<open>return name\<close>, \<open>None\<close> is the loop
  running to its end. \<^verbatim>\<open>nonfatal_attribute\<close> is declared in \<^verbatim>\<open>dwarf_structs.hpp\<close> and defined
  elsewhere; it is a parameter.
\<close>

fun conflict_in_x ::
  "(dw_at \<Rightarrow> bool) \<Rightarrow> (pool_string \<Rightarrow> 64 word) \<Rightarrow> attribute_sequence \<Rightarrow> attribute_sequence
     \<Rightarrow> dw_at option" where
  "conflict_in_x nonfatal_attribute string_hash [] y = None"
| "conflict_in_x nonfatal_attribute string_hash (xattr # xs) y =
     (let name = a_name xattr in
      if nonfatal_attribute name then conflict_in_x nonfatal_attribute string_hash xs y
      else case find_by_name name y of
             None \<Rightarrow> Some name
           | Some yattr \<Rightarrow>
               if name = at_type \<and> type_equivalent string_hash xattr yattr
               then conflict_in_x nonfatal_attribute string_hash xs y
               else if attribute_eq xattr yattr
               then conflict_in_x nonfatal_attribute string_hash xs y
               else Some name)"

text \<open>The second loop (lines 93 to 98) walks \<open>y\<close> for fatal attributes that \<open>x\<close> has not.\<close>

fun missing_in_x :: "(dw_at \<Rightarrow> bool) \<Rightarrow> attribute_sequence \<Rightarrow> attribute_sequence \<Rightarrow> dw_at option" where
  "missing_in_x nonfatal_attribute x [] = None"
| "missing_in_x nonfatal_attribute x (yattr # ys) =
     (let name = a_name yattr in
      if nonfatal_attribute name then missing_in_x nonfatal_attribute x ys
      else case find_by_name name x of
             None \<Rightarrow> Some name
           | Some xfound \<Rightarrow> missing_in_x nonfatal_attribute x ys)"

definition find_attribute_conflict ::
  "(dw_at \<Rightarrow> bool) \<Rightarrow> (pool_string \<Rightarrow> 64 word) \<Rightarrow> attribute_sequence \<Rightarrow> attribute_sequence
     \<Rightarrow> dw_at" where
  "find_attribute_conflict nonfatal_attribute string_hash x y =
     (case conflict_in_x nonfatal_attribute string_hash x y of
        Some name \<Rightarrow> name
      | None \<Rightarrow>
          (case missing_in_x nonfatal_attribute x y of
             Some name \<Rightarrow> name
           | None \<Rightarrow> at_none))"

text \<open>
  Modelled from the spec: the attributes that section 4.D names as nonfatal (declaration
  coordinates and link-dependent addresses), with their DWARF codes; \<open>DW_AT_type\<close> is not among
  them (a difference in it is the category \<open>subprogram:type\<close> of section 8). The table of the
  program is longer; this one serves to evaluate the analysis on examples.
\<close>

definition nonfatal_named_in_spec :: "dw_at \<Rightarrow> bool" where
  "nonfatal_named_in_spec name = (name \<in> {0x3a, 0x3b, 0x39, 0x11, 0x12, 0x55, 0x02})"

text \<open>
  Two attributes named \<open>DW_AT_type\<close> (form \<open>DW_FORM_strp\<close>) that hold strings: the handles differ
  and so do their hashes.
\<close>

definition type_attr_int :: attribute where
  "type_attr_int =
     \<lparr>a_name = at_type, a_form = 0x0e,
      a_value = \<lparr>av_type = type_string, av_uint = 0, av_int = 0,
                 av_string = Some (0, 0, 12), av_die = None\<rparr>\<rparr>"

definition type_attr_long :: attribute where
  "type_attr_long =
     \<lparr>a_name = at_type, a_form = 0x0e,
      a_value = \<lparr>av_type = type_string, av_uint = 0, av_int = 0,
                 av_string = Some (0, 0, 28), av_die = None\<rparr>\<rparr>"

definition example_string_hash :: "pool_string \<Rightarrow> 64 word" where
  "example_string_hash p = (case p of None \<Rightarrow> 0 | Some (pool, pond, off) \<Rightarrow> word_of_nat off)"

section \<open>ODRV reports and their filter (\<^verbatim>\<open>orc.cpp\<close>)\<close>











section \<open>Conflict analysis of a registry chain (\<^verbatim>\<open>orc.cpp\<close>)\<close>























section \<open>The string pool (\<^verbatim>\<open>string_pool.cpp\<close>)\<close>

text \<open>
  \<^verbatim>\<open>struct pool { char* _p{nullptr}; std::size_t _n{0}; ponds_type _ponds; }\<close>: a bump
  allocator over a vector of ponds, each pond an array of bytes. The pointer \<^verbatim>\<open>_p\<close> is the
  index of a pond with a byte offset into it, \<open>None\<close> is \<^verbatim>\<open>nullptr\<close>.
\<close>

record pool =
  p_p :: "(nat \<times> nat) option"
  p_n :: "64 word"
  p_ponds :: "8 word list list"

definition default_min_k :: "64 word" where
  "default_min_k = 16 * 1024 * 1024"

text \<open>
  \<^verbatim>\<open>std::memcpy(dst, src, n)\<close> into a pond at a byte offset; writing past the end of the
  array is undefined.
\<close>

definition memcpy :: "8 word list \<Rightarrow> nat \<Rightarrow> 8 word list \<Rightarrow> error + 8 word list" where
  "memcpy pond off bs =
     (if off + length bs \<le> length pond
      then Inr (take off pond @ bs @ drop (off + length bs) pond)
      else Inl UndefinedBehaviour)"

text \<open>
  \<^verbatim>\<open>std::size_t string_view_hash(std::string_view s) {
      return orc::murmur3_64(s.data(), static_cast<std::uint32_t>(s.length())); }\<close>
  The hash function \<^verbatim>\<open>orc::murmur3_64\<close> (\<^verbatim>\<open>orc/hash.hpp\<close>) is a parameter of the model.
\<close>

definition string_view_hash :: "(8 word list \<Rightarrow> 64 word) \<Rightarrow> 8 word list \<Rightarrow> 64 word" where
  "string_view_hash murmur3_64 s =
     murmur3_64 (take (unat (word_of_nat (length s) :: 32 word)) s)"

text \<open>
  \<^verbatim>\<open>const char* pool::empool(std::string_view incoming)\<close>. The result is the address of the
  first byte of the string in the pond, with the pool after the call. The integers are
  stored in the byte order of the host, taken to be little-endian;
  \<^verbatim>\<open>std::make_unique<char[]>(_n)\<close> gives an array of \<open>_n\<close> zero bytes.
\<close>

definition pool_empool ::
  "(8 word list \<Rightarrow> 64 word) \<Rightarrow> 8 word list \<Rightarrow> pool \<Rightarrow> error + ((nat \<times> nat) \<times> pool)" where
  "pool_empool murmur3_64 incoming pl =
     (let sz = (word_of_nat (length incoming) :: 32 word);
          tsz = sz + 4 + 8 + 1;
          pl1 = (if p_n pl < ucast tsz
                 then let n = max default_min_k (ucast tsz)
                      in \<lparr>p_p = Some (length (p_ponds pl), 0), p_n = n,
                          p_ponds = p_ponds pl @ [replicate (unat n) 0]\<rparr>
                 else pl);
          h = string_view_hash murmur3_64 incoming
      in case p_p pl1 of
           None \<Rightarrow> Inl UndefinedBehaviour
         | Some (k, off) \<Rightarrow>
             if \<not> k < length (p_ponds pl1) then Inl UndefinedBehaviour
             else
               (case memcpy (p_ponds pl1 ! k) off (le_bytes 4 sz) of
                  Inl e \<Rightarrow> Inl e
                | Inr m1 \<Rightarrow>
               (case memcpy m1 (off + 4) (le_bytes 8 h) of
                  Inl e \<Rightarrow> Inl e
                | Inr m2 \<Rightarrow>
               (case memcpy m2 (off + 4 + 8) (take (unat sz) incoming) of
                  Inl e \<Rightarrow> Inl e
                | Inr m3 \<Rightarrow>
               (if off + unat tsz = 0 then Inl UndefinedBehaviour
                else
               (case memcpy m3 (off + unat tsz - 1) [0] of
                  Inl e \<Rightarrow> Inl e
                | Inr m4 \<Rightarrow>
                    Inr ((k, off + 4 + 8),
                         \<lparr>p_p = Some (k, off + unat tsz),
                          p_n = p_n pl1 - ucast tsz,
                          p_ponds = (p_ponds pl1)[k := m4]\<rparr>)))))))"

text \<open>
  The state of the pool: the map \<^verbatim>\<open>keys\<close> from hashes to addresses
  (\<^verbatim>\<open>tbb::concurrent_unordered_map<size_t, const char*>\<close>) and the array
  \<^verbatim>\<open>static pool pools[pool_count_k]\<close>. Calls are taken one at a time.
\<close>

record string_pool =
  sp_keys :: "64 word \<rightharpoonup> arena_addr"
  sp_pools :: "nat \<Rightarrow> pool"

definition pool_count_k :: nat where
  "pool_count_k = 23"

definition string_pool_init :: string_pool where
  "string_pool_init =
     \<lparr>sp_keys = Map.empty, sp_pools = (\<lambda>i. \<lparr>p_p = None, p_n = 0, p_ponds = []\<rparr>)\<rparr>"

text \<open>
  Reading \<open>n\<close> bytes that start \<open>before\<close> bytes below an address of the arena; outside of
  the pond the read is undefined.
\<close>

definition arena_read :: "string_pool \<Rightarrow> arena_addr \<Rightarrow> nat \<Rightarrow> nat \<Rightarrow> error + 8 word list" where
  "arena_read st a before n =
     (case a of (i, k, off) \<Rightarrow>
        let ponds = p_ponds (sp_pools st i)
        in if k < length ponds \<and> before \<le> off \<and> off - before + n \<le> length (ponds ! k)
           then Inr (map ((!) (ponds ! k)) [off - before ..< off - before + n])
           else Inl UndefinedBehaviour)"

text \<open>
  \<^verbatim>\<open>std::size_t pool_string::get_size(const char* d)\<close> and
  \<^verbatim>\<open>std::size_t pool_string::get_hash(const char* d)\<close>; \<^verbatim>\<open>orc::unaligned_read<T>\<close> reads the
  bytes of a \<open>T\<close> in the byte order of the host.
\<close>

definition get_size :: "string_pool \<Rightarrow> pool_string \<Rightarrow> error + 64 word" where
  "get_size st d =
     (case d of
        None \<Rightarrow> Inl AssertionFailed
      | Some a \<Rightarrow>
          (case arena_read st a (4 + 8) 4 of
             Inl e \<Rightarrow> Inl e
           | Inr bytes \<Rightarrow>
               let s = (le_word bytes :: 32 word)
               in if \<not> s > 0 then Inl AssertionFailed
                  else if \<not> s < 100000 then Inl AssertionFailed
                  else Inr (ucast s)))"

definition get_hash :: "string_pool \<Rightarrow> pool_string \<Rightarrow> error + 64 word" where
  "get_hash st d =
     (case d of
        None \<Rightarrow> Inl AssertionFailed
      | Some a \<Rightarrow>
          (case arena_read st a 8 8 of
             Inl e \<Rightarrow> Inl e
           | Inr bytes \<Rightarrow> Inr (le_word bytes)))"

text \<open>
  Modelled from the spec: \<^verbatim>\<open>pool_string::view()\<close> and \<^verbatim>\<open>pool_string::hash()\<close> of
  \<^verbatim>\<open>orc/string_pool.hpp\<close> (not among the sources). "The arena stores, immediately before the
  pointed-at bytes, a 32-bit length and a 64-bit hash. Equality and hashing are O(1) on the
  stored hash. The empty string is represented by a null handle": the view of a null handle
  is \<^verbatim>\<open>default_view\<close> (the empty string) and its hash is 0; the view of another handle is the
  \<^verbatim>\<open>get_size\<close> bytes at the address, its hash is \<^verbatim>\<open>get_hash\<close>.
\<close>

definition pool_string_view :: "string_pool \<Rightarrow> pool_string \<Rightarrow> error + 8 word list" where
  "pool_string_view st d =
     (case d of
        None \<Rightarrow> Inr []
      | Some a \<Rightarrow>
          (case get_size st d of
             Inl e \<Rightarrow> Inl e
           | Inr n \<Rightarrow> arena_read st a 0 (unat n)))"

definition pool_string_hash :: "string_pool \<Rightarrow> pool_string \<Rightarrow> error + 64 word" where
  "pool_string_hash st d =
     (case d of
        None \<Rightarrow> Inr 0
      | Some a \<Rightarrow> get_hash st d)"

text \<open>
  \<^verbatim>\<open>pool_string empool(std::string_view src)\<close>, with the lambda \<^verbatim>\<open>find_key\<close>. The result is
  the handle and the state of the pool after the call.
\<close>

definition find_key :: "string_pool \<Rightarrow> 64 word \<Rightarrow> pool_string" where
  "find_key st h = (if h \<in> dom (sp_keys st) then sp_keys st h else None)"

definition found_key ::
  "string_pool \<Rightarrow> 8 word list \<Rightarrow> arena_addr \<Rightarrow> error + (pool_string \<times> string_pool)" where
  "found_key st src c =
     (case pool_string_view st (Some c) of
        Inl e \<Rightarrow> Inl e
      | Inr v \<Rightarrow> if v = src then Inr (Some c, st) else Inl AssertionFailed)"

definition empool ::
  "(8 word list \<Rightarrow> 64 word) \<Rightarrow> 8 word list \<Rightarrow> string_pool
     \<Rightarrow> error + (pool_string \<times> string_pool)" where
  "empool murmur3_64 src st =
     (if src = [] then Inr (None, st)
      else
        let h = string_view_hash murmur3_64 src
        in case find_key st h of
             Some c \<Rightarrow> found_key st src c
           | None \<Rightarrow>
               let index = unat h mod pool_count_k
               in (case find_key st h of
                     Some c \<Rightarrow> found_key st src c
                   | None \<Rightarrow>
                       (case pool_empool murmur3_64 src (sp_pools st index) of
                          Inl e \<Rightarrow> Inl e
                        | Inr ((k, off), pl) \<Rightarrow>
                            Inr (Some (index, k, off),
                                 st\<lparr>sp_pools := (sp_pools st)(index := pl),
                                    sp_keys := (if h \<in> dom (sp_keys st) then sp_keys st
                                                else (sp_keys st)(h \<mapsto> (index, k, off)))\<rparr>))))"

text \<open>
  The invariant of the pool. Every pool is either untouched or points into its last pond
  with \<^verbatim>\<open>_n\<close> the number of bytes left in it; every entry of \<^verbatim>\<open>keys\<close> is the address of a
  block in the pool chosen by its hash, below the allocation pointer, whose stored hash is
  the key and the hash of its string.
\<close>

definition pool_wf :: "pool \<Rightarrow> bool" where
  "pool_wf pl =
     (case p_p pl of
        None \<Rightarrow> p_n pl = 0 \<and> p_ponds pl = []
      | Some (k, off) \<Rightarrow>
          Suc k = length (p_ponds pl) \<and> off + unat (p_n pl) = length (p_ponds pl ! k))"

definition slot_ok :: "(8 word list \<Rightarrow> 64 word) \<Rightarrow> string_pool \<Rightarrow> 64 word \<Rightarrow> arena_addr \<Rightarrow> bool" where
  "slot_ok murmur3_64 st h a =
     (case a of (i, k, off) \<Rightarrow>
        i = unat h mod pool_count_k
      \<and> get_hash st (Some a) = Inr h
      \<and> (case pool_string_view st (Some a) of
           Inl e \<Rightarrow> False
         | Inr s \<Rightarrow>
             string_view_hash murmur3_64 s = h
           \<and> (case p_p (sp_pools st i) of
                None \<Rightarrow> False
              | Some (k1, off1) \<Rightarrow> k = k1 \<longrightarrow> off + length s \<le> off1)))"

definition pool_inv :: "(8 word list \<Rightarrow> 64 word) \<Rightarrow> string_pool \<Rightarrow> bool" where
  "pool_inv murmur3_64 st =
     ((\<forall>i. pool_wf (sp_pools st i))
    \<and> (\<forall>h a. sp_keys st h = Some a \<longrightarrow> slot_ok murmur3_64 st h a))"

text \<open>A string of 100000 bytes, each the letter \<^verbatim>\<open>a\<close>.\<close>

definition long_string :: "8 word list" where
  "long_string = replicate 100000 0x61"

definition example_bytes :: "8 word list" where
  "example_bytes = [0x61, 0x2E, 0x6F]"

definition example_bytes2 :: "8 word list" where
  "example_bytes2 = [0x62, 0x2E, 0x6F]"

section \<open>Properties of the object-file ancestry\<close>

lemma emplace_back_ok:
  "unat (oa_count a) < 4 \<Longrightarrow>
   emplace_back n a =
     Inr (a\<lparr>oa_ancestors := (oa_ancestors a)(unat (oa_count a) := n), oa_count := oa_count a + 1\<rparr>)"
  by (simp add: emplace_back_def ancestors_size_def word_less_nat_alt unat_word_ariths)

lemma emplace_back_full:
  "unat (oa_count a) = 4 \<Longrightarrow> emplace_back n a = Inl AssertionFailed"
  by (simp add: emplace_back_def ancestors_size_def word_less_nat_alt unat_word_ariths)

text \<open>
  Appending \<open>ns\<close> to an ancestry that holds \<open>k\<close> names succeeds when \<open>k + length ns \<le> 4\<close>:
  the new names fill the slots \<open>k, k + 1, ...\<close>, the other slots keep their content and the
  count grows by the number of names.
\<close>

lemma emplace_all_ok:
  "unat (oa_count a) + length ns \<le> 4 \<Longrightarrow>
   \<exists>a'. emplace_all ns a = Inr a'
      \<and> unat (oa_count a') = unat (oa_count a) + length ns
      \<and> (\<forall>i < length ns. oa_ancestors a' (unat (oa_count a) + i) = ns ! i)
      \<and> (\<forall>j. j < unat (oa_count a) \<or> unat (oa_count a) + length ns \<le> j
             \<longrightarrow> oa_ancestors a' j = oa_ancestors a j)"
proof (induction ns arbitrary: a)
  case Nil
  then show ?case by simp
next
  case (Cons n ns)
  let ?k = "unat (oa_count a)"
  let ?b = "a\<lparr>oa_ancestors := (oa_ancestors a)(?k := n), oa_count := oa_count a + 1\<rparr>"
  from Cons.prems have k: "?k < 4" by simp
  then have step: "emplace_back n a = Inr ?b" by (rule emplace_back_ok)
  from k have cnt: "unat (oa_count ?b) = Suc ?k"
    by (simp add: unat_word_ariths)
  with Cons.prems have "unat (oa_count ?b) + length ns \<le> 4" by simp
  from Cons.IH [OF this] obtain a' where
    run: "emplace_all ns ?b = Inr a'" and
    c': "unat (oa_count a') = unat (oa_count ?b) + length ns" and
    new: "\<forall>i < length ns. oa_ancestors a' (unat (oa_count ?b) + i) = ns ! i" and
    old: "\<forall>j. j < unat (oa_count ?b) \<or> unat (oa_count ?b) + length ns \<le> j
             \<longrightarrow> oa_ancestors a' j = oa_ancestors ?b j"
    by blast
  have "emplace_all (n # ns) a = Inr a'"
    using step run by simp
  moreover have "unat (oa_count a') = ?k + length (n # ns)"
    using c' cnt by simp
  moreover have "\<forall>i < length (n # ns). oa_ancestors a' (?k + i) = (n # ns) ! i"
  proof (intro allI impI)
    fix i assume i: "i < length (n # ns)"
    show "oa_ancestors a' (?k + i) = (n # ns) ! i"
    proof (cases i)
      case 0
      have "oa_ancestors a' ?k = oa_ancestors ?b ?k"
        using old cnt by simp
      then show ?thesis using 0 by simp
    next
      case (Suc i')
      then have "i' < length ns" using i by simp
      with new have "oa_ancestors a' (unat (oa_count ?b) + i') = ns ! i'" by blast
      then show ?thesis using Suc cnt by simp
    qed
  qed
  moreover have "\<forall>j. j < ?k \<or> ?k + length (n # ns) \<le> j
                  \<longrightarrow> oa_ancestors a' j = oa_ancestors a j"
  proof (intro allI impI)
    fix j assume j: "j < ?k \<or> ?k + length (n # ns) \<le> j"
    then have "j < unat (oa_count ?b) \<or> unat (oa_count ?b) + length ns \<le> j"
      using cnt by auto
    with old have "oa_ancestors a' j = oa_ancestors ?b j" by blast
    moreover from j have "j \<noteq> ?k" by auto
    ultimately show "oa_ancestors a' j = oa_ancestors a j" by simp
  qed
  ultimately show ?case by blast
qed

lemma fresh_count [simp]: "unat (oa_count fresh_ancestry) = 0"
  by (simp add: fresh_ancestry_def)

lemma fresh_slot [simp]: "oa_ancestors fresh_ancestry i = None"
  by (simp add: fresh_ancestry_def)

text \<open>The fifth \<^verbatim>\<open>emplace_back\<close> on a fresh ancestry fails its assertion, whatever the names.\<close>

lemma emplace_all_fifth_fails:
  "length ns = 5 \<Longrightarrow> emplace_all ns fresh_ancestry = Inl AssertionFailed"
proof -
  assume len: "length ns = 5"
  then have split: "ns = take 4 ns @ [ns ! 4]"
    by (metis Suc_eq_plus1 add_2_eq_Suc' id_take_nth_drop lessI numeral_Bit0 numeral_Bit1
        numerals(1) take_all_iff drop_all order_refl Suc_numeral semiring_norm(2,5,8))
  have run_append: "\<And>xs ys a. emplace_all (xs @ ys) a =
      (case emplace_all xs a of Inl e \<Rightarrow> Inl e | Inr a' \<Rightarrow> emplace_all ys a')"
  proof -
    fix xs ys and a :: object_ancestry
    show "emplace_all (xs @ ys) a =
      (case emplace_all xs a of Inl e \<Rightarrow> Inl e | Inr a' \<Rightarrow> emplace_all ys a')"
      by (induction xs arbitrary: a) (auto split: sum.splits)
  qed
  have "unat (oa_count fresh_ancestry) + length (take 4 ns) \<le> 4" using len by simp
  from emplace_all_ok [OF this] obtain a' where
    run: "emplace_all (take 4 ns) fresh_ancestry = Inr a'" and
    cnt: "unat (oa_count a') = unat (oa_count fresh_ancestry) + length (take 4 ns)"
    by blast
  from cnt len have "unat (oa_count a') = 4" by simp
  then have "emplace_back (ns ! 4) a' = Inl AssertionFailed" by (rule emplace_back_full)
  then have "emplace_all (take 4 ns @ [ns ! 4]) fresh_ancestry = Inl AssertionFailed"
    using run by (simp add: run_append)
  with split show ?thesis by simp
qed

text \<open>
  Claim C8, as amended. Under the assertion of \<^verbatim>\<open>emplace_back\<close> an ancestry holds up to four
  names: for a fresh ancestry and every sequence \<open>ns\<close> of at most four names, every call
  passes its assertion, the names fill the slots \<open>0, 1, ...\<close> in order and the count is the
  number of names appended. A sequence of five names fails the assertion of the fifth call,
  since \<open>(4 + 1) < 5\<close> is false.
\<close>

theorem ancestry_capacity_is_four:
  assumes "length ns \<le> 5"
  shows "emplace_all ns fresh_ancestry =
           (if length ns \<le> 4
            then Inr \<lparr>oa_ancestors = (\<lambda>i. if i < length ns then ns ! i else None),
                      oa_count = word_of_nat (length ns)\<rparr>
            else Inl AssertionFailed)"
proof (cases "length ns \<le> 4")
  case True
  then have "unat (oa_count fresh_ancestry) + length ns \<le> 4" by simp
  from emplace_all_ok [OF this] obtain a where
    run: "emplace_all ns fresh_ancestry = Inr a" and
    cnt: "unat (oa_count a) = length ns" and
    new: "\<forall>i < length ns. oa_ancestors a i = ns ! i" and
    old: "\<forall>j. length ns \<le> j \<longrightarrow> oa_ancestors a j = None"
    by auto
  have "oa_ancestors a = (\<lambda>i. if i < length ns then ns ! i else None)"
    using new old by (auto simp: fun_eq_iff)
  moreover have "oa_count a = word_of_nat (length ns)"
    using cnt by (metis of_nat_unat ucast_id)
  ultimately have "a = \<lparr>oa_ancestors = (\<lambda>i. if i < length ns then ns ! i else None),
                         oa_count = word_of_nat (length ns)\<rparr>"
    by simp
  with run True show ?thesis by simp
next
  case False
  with assms have "length ns = 5" by simp
  then have "emplace_all ns fresh_ancestry = Inl AssertionFailed"
    by (rule emplace_all_fifth_fails)
  with False show ?thesis by simp
qed

theorem ancestry_capacity_is_four_witness:
  "emplace_all [Some (0, 0, 12), Some (1, 0, 12)] fresh_ancestry =
     Inr \<lparr>oa_ancestors = (\<lambda>i. if i < 2 then [Some (0, 0, 12), Some (1, 0, 12)] ! i else None),
          oa_count = 2\<rparr>"
proof -
  have "length [Some (0::nat, 0::nat, 12::nat), Some (1, 0, 12)] \<le> 5" by simp
  from ancestry_capacity_is_four [OF this] show ?thesis
    by (simp del: emplace_all.simps add: numeral_2_eq_2)
qed

text \<open>
  Claim C8 as stated fails at five calls: the fifth \<^verbatim>\<open>emplace_back\<close> on a fresh ancestry
  does not pass its assertion.
\<close>

theorem ancestry_five_names_counterexample:
  "emplace_all [Some (0, 0, 12), Some (0, 0, 32), Some (0, 0, 52), Some (0, 0, 72), Some (0, 0, 92)]
     fresh_ancestry = Inl AssertionFailed"
  by (simp add: emplace_back_def fresh_ancestry_def ancestors_size_def)

text \<open>
  Claim C9. \<^verbatim>\<open>back()\<close> returns the array slot at index \<^verbatim>\<open>_count\<close>, one past the last appended
  name, and not the name appended last. Stated for an ancestry \<open>a\<close> with any slot contents and
  any count: after appending \<open>ns\<close> (with room under the assertion, and at least one name held
  afterwards) the count is \<open>_count + length ns\<close> and \<^verbatim>\<open>back()\<close> returns what the slot at that
  index held in \<open>a\<close>, a slot no call has written; the name appended last is in the slot at
  index \<^verbatim>\<open>_count - 1\<close>. For a fresh ancestry and \<open>n\<close> calls, \<open>1 \<le> n < 5\<close>, the slot returned
  is still the default (null) handle.
\<close>

theorem back_reads_slot_at_count:
  assumes "unat (oa_count a) + length ns \<le> 4" and "1 \<le> unat (oa_count a) + length ns"
  shows "\<exists>a'. emplace_all ns a = Inr a'
            \<and> unat (oa_count a') = unat (oa_count a) + length ns
            \<and> back_ancestor a' = Inr (oa_ancestors a (unat (oa_count a) + length ns))
            \<and> oa_ancestors a' (unat (oa_count a')) = oa_ancestors a (unat (oa_count a) + length ns)
            \<and> (ns \<noteq> [] \<longrightarrow> oa_ancestors a' (unat (oa_count a') - 1) = last ns)
            \<and> (a = fresh_ancestry \<longrightarrow> back_ancestor a' = Inr None)"
proof -
  let ?k = "unat (oa_count a)"
  from emplace_all_ok [OF assms(1)] obtain a' where
    run: "emplace_all ns a = Inr a'" and
    cnt: "unat (oa_count a') = ?k + length ns" and
    new: "\<forall>i < length ns. oa_ancestors a' (?k + i) = ns ! i" and
    old: "\<forall>j. j < ?k \<or> ?k + length ns \<le> j \<longrightarrow> oa_ancestors a' j = oa_ancestors a j"
    by blast
  from cnt assms(2) have nz: "oa_count a' \<noteq> 0"
    by (metis not_one_le_zero unat_0)
  from cnt assms(1) have lt: "oa_count a' < ancestors_size"
    by (simp add: ancestors_size_def word_less_nat_alt)
  from old have slot: "oa_ancestors a' (?k + length ns) = oa_ancestors a (?k + length ns)"
    by simp
  have res: "back_ancestor a' = Inr (oa_ancestors a (?k + length ns))"
    using nz lt cnt slot by (simp add: back_ancestor_def)
  have prev: "ns \<noteq> [] \<longrightarrow> oa_ancestors a' (unat (oa_count a') - 1) = last ns"
  proof
    assume ne: "ns \<noteq> []"
    then have "length ns - 1 < length ns" by simp
    with new have "oa_ancestors a' (?k + (length ns - 1)) = ns ! (length ns - 1)" by blast
    moreover from ne have "?k + (length ns - 1) = ?k + length ns - 1" by (cases ns) simp_all
    ultimately show "oa_ancestors a' (unat (oa_count a') - 1) = last ns"
      using ne cnt by (simp add: last_conv_nth)
  qed
  have fresh: "a = fresh_ancestry \<longrightarrow> back_ancestor a' = Inr None"
    using res by simp
  from run cnt res slot prev fresh show ?thesis by auto
qed

text \<open>
  At an ancestry whose slot \<open>i\<close> holds the handle \<open>(0, 0, i)\<close> and whose count is 1: after one
  more name, \<^verbatim>\<open>back()\<close> returns the handle of slot 2, not the name just appended to slot 1.
\<close>

theorem back_reads_slot_at_count_witness:
  "\<exists>a'. emplace_all [Some (1, 0, 12)] numbered_ancestry = Inr a'
       \<and> unat (oa_count a') = 2
       \<and> back_ancestor a' = Inr (Some (0, 0, 2))
       \<and> oa_ancestors a' (unat (oa_count a')) = Some (0, 0, 2)
       \<and> oa_ancestors a' (unat (oa_count a') - 1) = Some (1, 0, 12)"
proof -
  have h1: "unat (oa_count numbered_ancestry) + length [Some (1::nat, 0::nat, 12::nat)] \<le> 4"
    by (simp add: numbered_ancestry_def)
  have h2: "1 \<le> unat (oa_count numbered_ancestry) + length [Some (1::nat, 0::nat, 12::nat)]"
    by (simp add: numbered_ancestry_def)
  from back_reads_slot_at_count [OF h1 h2] obtain a' where
    "emplace_all [Some (1, 0, 12)] numbered_ancestry = Inr a'"
    "unat (oa_count a') = 2"
    "back_ancestor a' = Inr (Some (0, 0, 2))"
    "oa_ancestors a' (unat (oa_count a')) = Some (0, 0, 2)"
    "oa_ancestors a' (unat (oa_count a') - 1) = Some (1, 0, 12)"
    by (auto simp add: numbered_ancestry_def numeral_2_eq_2 simp del: emplace_all.simps)
  then show ?thesis by blast
qed

section \<open>Properties of the byte reader\<close>

lemma mem_bytes_4: "mem_bytes m a 4 = [m a, m (a + 1), m (a + 2), m (a + 3)]"
proof -
  have "mem_bytes m a (Suc (Suc (Suc (Suc 0)))) = [m a, m (a + 1), m (a + 2), m (a + 3)]"
    by (simp add: add.assoc)
  then show ?thesis by (simp add: numeral_eq_Suc)
qed

text \<open>
  Claim C10, as amended. On a reader that passes \<^verbatim>\<open>assert(*this)\<close>, the end-relative seek
  \<^verbatim>\<open>seekg(offset, std::ios::end)\<close> changes the read pointer only, and the new position
  (\<^verbatim>\<open>tellg()\<close>, counted from the window start \<^verbatim>\<open>_f\<close>) is the number of remaining bytes
  \<^verbatim>\<open>size()\<close> minus \<open>offset\<close>, that is window size minus current position minus \<open>offset\<close>.
  It is the window size minus \<open>offset\<close> exactly when the reader stood at position 0.
  All arithmetic is arithmetic of 64-bit words.
\<close>

theorem seekg_end_depends_on_position:
  assumes "freader_ok s"
  shows "seekg offset ios_end s = Inr (s\<lparr>fr_p := fr_f s + (freader_size s - offset)\<rparr>)
       \<and> tellg (s\<lparr>fr_p := fr_f s + (freader_size s - offset)\<rparr>) = freader_size s - offset
       \<and> freader_size s - offset = (fr_l s - fr_f s) - tellg s - offset
       \<and> (tellg (s\<lparr>fr_p := fr_f s + (freader_size s - offset)\<rparr>) = (fr_l s - fr_f s) - offset
            \<longleftrightarrow> tellg s = 0)"
  using assms by (auto simp: seekg_def tellg_def freader_size_def)

theorem seekg_end_depends_on_position_witness:
  "seekg 0 ios_end example_reader = Inr (example_reader\<lparr>fr_p := 0x1006\<rparr>)
   \<and> tellg (example_reader\<lparr>fr_p := 0x1006\<rparr>) = 6"
  using seekg_end_depends_on_position [of example_reader 0]
  by (simp add: example_reader_def freader_ok_def filebuf_ok_def freader_size_def tellg_def)

text \<open>
  Claim C10 as stated fails: with a window of ten bytes and the reader at position 4,
  \<^verbatim>\<open>seekg(0, std::ios::end)\<close> moves to position 6 (the remaining bytes), whereas current
  position plus remaining bytes minus offset is 10.
\<close>

theorem seekg_end_counterexample:
  "seekg 0 ios_end example_reader = Inr (example_reader\<lparr>fr_p := 0x1006\<rparr>)
   \<and> tellg (example_reader\<lparr>fr_p := 0x1006\<rparr>) = 6
   \<and> tellg example_reader + (freader_size example_reader - 0) = 10"
  by (simp add: seekg_def example_reader_def freader_ok_def filebuf_ok_def freader_size_def
      tellg_def)

text \<open>
  \<^verbatim>\<open>subbuf\<close> in general: when it returns, the new reader's \<^verbatim>\<open>_p\<close> is the parent's \<^verbatim>\<open>_f\<close> minus
  the parent's position, its \<^verbatim>\<open>_l\<close> is the parent's \<^verbatim>\<open>_f\<close> plus \<open>end_pos\<close> minus the parent's
  position, and its \<^verbatim>\<open>_f\<close> is the start of the new mapping. So its \<^verbatim>\<open>size()\<close> is \<open>end_pos\<close>.
\<close>

lemma subbuf_result:
  assumes "subbuf env end_pos s = Inr r"
  shows "fr_p r = fr_f s - tellg s"
    and "fr_l r = fr_f s + (end_pos - tellg s)"
    and "fr_f r = filebuf_get (fr_filebuf r)"
    and "freader_size r = end_pos"
  using assms
  by (auto simp: subbuf_def Let_def tellg_def freader_size_def split: sum.splits)

text \<open>
  Claim C7 at a concrete input (the claim is not met by the code). The parent reader has a
  window of ten bytes at \<open>0x1000\<close> and stands at position 4; \<^verbatim>\<open>subbuf(8)\<close> should give a reader
  with \<^verbatim>\<open>tellg() = 0\<close>, \<^verbatim>\<open>size() = 4\<close> and read pointer on the parent's byte 4. The code returns
  a reader whose read pointer is \<open>0xFFC\<close>, four bytes before the parent's mapping, whose
  \<^verbatim>\<open>size()\<close> is 8 and whose \<^verbatim>\<open>tellg()\<close> is \<open>0xFFC - 0x20000\<close> modulo \<open>2^64\<close>.
\<close>

theorem subbuf_failing_input:
  "subbuf example_env 8 example_reader =
     Inr \<lparr>fr_filebuf = \<lparr>fb_descriptor = Some 3, fb_buffer = Some 0x20000\<rparr>,
          fr_f = 0x20000, fr_p = 0xFFC, fr_l = 0x1004\<rparr>
   \<and> freader_size \<lparr>fr_filebuf = \<lparr>fb_descriptor = Some 3, fb_buffer = Some 0x20000\<rparr>,
          fr_f = 0x20000, fr_p = 0xFFC, fr_l = 0x1004\<rparr> = 8
   \<and> tellg \<lparr>fr_filebuf = \<lparr>fb_descriptor = Some 3, fb_buffer = Some 0x20000\<rparr>,
          fr_f = 0x20000, fr_p = 0xFFC, fr_l = 0x1004\<rparr> = 0xFFFFFFFFFFFE0FFC
   \<and> tellg example_reader = 4"
  by (simp add: subbuf_def remmap_def mmap_buffer_def example_env_def example_reader_def
      filebuf_get_def freader_size_def tellg_def Let_def)

section \<open>Properties of the file-format detection\<close>

lemmas mach_constants =
  MH_MAGIC_def MH_CIGAM_def MH_MAGIC_64_def MH_CIGAM_64_def FAT_MAGIC_def FAT_CIGAM_def
  FAT_MAGIC_64_def FAT_CIGAM_64_def AR_MAGIC_def AR_CIGAM_def CPU_ARCH_ABI64_def
  CPU_ARCH_ABI64_32_def CPU_TYPE_X86_def CPU_TYPE_X86_64_def CPU_TYPE_ARM_def
  CPU_TYPE_ARM64_def CPU_TYPE_ARM64_32_def

lemmas detect_file_eval =
  detect_file_def detect_file_body_def seekg_def seekg_abs_def read_bytes_def reader_at_def
  freader_ok_def filebuf_ok_def tellg_def Let_def mem_bytes_4 memory_of_def
  native_word_def default_file_details_def mach_constants

text \<open>
  Claim C4 at a concrete input (the claim is not met by the code). For a Mach-O image whose
  cputype is \<^verbatim>\<open>CPU_TYPE_ARM64_32\<close> (\<open>12 | ABI64_32\<close>), \<^verbatim>\<open>detect_file\<close> returns the architecture
  \<^verbatim>\<open>arch::arm64\<close>, not the like-named \<^verbatim>\<open>arch::arm64_32\<close>; no warning is written and the reader
  is back at its position.
\<close>

theorem detect_file_arm64_32_failing_input:
  "detect_file True (memory_of 0x1000 arm64_32_image) (reader_at 0x1000 8) =
     Inr (\<lparr>fd_offset = 0, fd_format = format_macho, fd_arch = arch_arm64,
           fd_is_64_bit = False, fd_needs_byteswap = False\<rparr>,
          [], reader_at 0x1000 8)"
  by (simp add: detect_file_eval arm64_32_image_def)

text \<open>The sibling branch: an \<^verbatim>\<open>arm64\<close> image is mapped to the like-named \<^verbatim>\<open>arch::arm64\<close>.\<close>

lemma detect_file_arm64:
  "detect_file True (memory_of 0x1000 arm64_image) (reader_at 0x1000 8) =
     Inr (\<lparr>fd_offset = 0, fd_format = format_macho, fd_arch = arch_arm64,
           fd_is_64_bit = True, fd_needs_byteswap = False\<rparr>,
          [], reader_at 0x1000 8)"
  by (simp add: detect_file_eval arm64_image_def)

section \<open>Properties of the LEB128 decoders\<close>

text \<open>One 7-bit group and the groups above it occupy disjoint bits.\<close>

lemma group_mask: "(b AND 0x7f :: 8 word) = take_bit 7 b"
  by (simp add: take_bit_eq_mask mask_eq_exp_minus_1)

lemma group_disjoint: "(ucast (b AND 0x7f :: 8 word) :: 32 word) AND push_bit 7 x = 0"
  unfolding group_mask by (rule bit_word_eqI) (auto simp: bit_simps)

lemma group_value:
  "(word_of_nat (unat (b AND 0x7f :: 8 word) + 128 * v) :: 32 word)
     = ucast (b AND 0x7f) OR push_bit 7 (word_of_nat v)"
proof -
  have "(word_of_nat (unat (b AND 0x7f) + 128 * v) :: 32 word)
      = ucast (b AND 0x7f) + push_bit 7 (word_of_nat v)"
    by (simp add: push_bit_eq_mult)
  also have "\<dots> = ucast (b AND 0x7f) OR push_bit 7 (word_of_nat v)"
    by (rule disjunctive_add_eq_or) (rule group_disjoint)
  finally show ?thesis .
qed

lemma get_char_ok:
  "filebuf_ok (fr_filebuf s) \<Longrightarrow> unat (fr_p s) + Suc n \<le> unat (fr_l s) \<Longrightarrow>
   get_char m s = Inr (m (fr_p s), s\<lparr>fr_p := fr_p s + 1\<rparr>)"
  by (simp add: get_char_def freader_ok_def word_le_nat_alt)

lemma unat_succ_in_window:
  assumes "unat (p :: 64 word) + Suc n \<le> unat (l :: 64 word)"
  shows "unat (p + 1) = unat p + 1"
proof -
  have "unat l < 2 ^ 64" using unsigned_less [of l, where ?'a = nat] by simp
  with assms have "unat p + 1 < 2 ^ 64" by simp
  then show ?thesis by (simp add: unat_word_ariths)
qed

lemma uleb_value_zero_group: "uleb_value (b # bs) = 0 \<Longrightarrow> ucast (b AND 0x7f :: 8 word) = (0 :: 32 word)"
  by (simp add: unat_eq_zero)

lemma push_bit_high_zero: "32 \<le> n \<Longrightarrow> push_bit n (w :: 32 word) = 0"
  by (rule bit_word_eqI) (auto simp: bit_simps)

lemma uleb128_loop_decodes:
  assumes "leb_wellformed bs"
    and "mem_bytes m (fr_p s) (length bs) = bs"
    and "filebuf_ok (fr_filebuf s)"
    and "unat (fr_p s) + length bs \<le> unat (fr_l s)"
    and "uleb_value bs * 2 ^ (7 * k) < 2 ^ 35"
  shows "uleb128_loop m s r (word_of_nat (7 * k)) =
           Some (Inr (r OR push_bit (7 * k) (word_of_nat (uleb_value bs)),
                      s\<lparr>fr_p := fr_p s + word_of_nat (length bs)\<rparr>))"
  using assms
proof (induction bs arbitrary: s r k)
  case Nil
  then show ?case by simp
next
  case (Cons b bs)
  let ?s' = "s\<lparr>fr_p := fr_p s + 1\<rparr>"
  let ?g = "ucast (b AND 0x7f) :: 32 word"
  let ?shift = "word_of_nat (7 * k) :: 64 word"
  from Cons.prems(2) have b: "m (fr_p s) = b" and rest: "mem_bytes m (fr_p s + 1) (length bs) = bs"
    by simp_all
  from Cons.prems(4) have win: "unat (fr_p s) + Suc (length bs) \<le> unat (fr_l s)" by simp
  have get: "get_char m s = Inr (b, ?s')"
    using get_char_ok [OF Cons.prems(3) win] b by simp
  have step: "(if ?shift < 32 then r OR push_bit (unat ?shift) ?g else r) = r OR push_bit (7 * k) ?g"
  proof (cases "k < 5")
    case True
    then have "7 * k < (2::nat) ^ 64" by simp
    then have "unat ?shift = 7 * k" by (intro of_nat_inverse [OF refl]) simp
    moreover from this True have "?shift < 32" by (simp add: word_less_nat_alt)
    ultimately show ?thesis by simp
  next
    case False
    then have "(2::nat) ^ 35 \<le> 2 ^ (7 * k)" by (intro power_increasing) simp_all
    with Cons.prems(5) have "uleb_value (b # bs) = 0"
      by (metis (no_types, lifting) leD le_trans mult_eq_0_iff mult_le_mono1 nat_mult_1 not_gr_zero Suc_leI One_nat_def)
    then have "?g = 0" by (rule uleb_value_zero_group)
    then show ?thesis by simp
  qed
  show ?case
  proof (cases bs)
    case Nil
    with Cons.prems(1) have last: "b AND 0x80 = 0" by simp
    show ?thesis
      apply (subst uleb128_loop.simps)
      using Nil last get step by (simp add: unat_eq_zero)
  next
    case (Cons b' bs')
    with Cons.prems(1) have cont: "b AND 0x80 \<noteq> 0" and wf: "leb_wellformed bs" by simp_all
    have win': "unat (fr_p ?s') + length bs \<le> unat (fr_l ?s')"
      using unat_succ_in_window [OF win] win by simp
    define X where "X = uleb_value bs * 2 ^ (7 * k)"
    have "128 * X \<le> uleb_value (b # bs) * 2 ^ (7 * k)"
      by (simp add: X_def algebra_simps)
    then have "128 * X < 2 ^ 35" using Cons.prems(5) by (rule le_less_trans)
    moreover have "uleb_value bs * 2 ^ (7 * Suc k) = 128 * X"
      by (simp add: X_def power_add)
    ultimately have val: "uleb_value bs * 2 ^ (7 * Suc k) < 2 ^ 35" by simp
    have IH: "uleb128_loop m ?s' (r OR push_bit (7 * k) ?g) (word_of_nat (7 * Suc k)) =
           Some (Inr ((r OR push_bit (7 * k) ?g) OR push_bit (7 * Suc k) (word_of_nat (uleb_value bs)),
                      ?s'\<lparr>fr_p := fr_p ?s' + word_of_nat (length bs)\<rparr>))"
      using Cons.IH [of ?s' "Suc k" "r OR push_bit (7 * k) ?g"] wf rest Cons.prems(3) win' val
      by simp
    have shift: "?shift + 7 = word_of_nat (7 * Suc k)" by simp
    have res: "(r OR push_bit (7 * k) ?g) OR push_bit (7 * Suc k) (word_of_nat (uleb_value bs))
        = r OR push_bit (7 * k) (word_of_nat (uleb_value (b # bs)))"
      by (simp add: group_value push_bit_or push_bit_push_bit or.assoc add.commute del: of_nat_add of_nat_mult)
    show ?thesis
      apply (subst uleb128_loop.simps)
      using cont get step shift IH res by (simp add: add.assoc del: of_nat_add of_nat_mult uleb_value.simps)
  qed
qed

lemma group_less: "unat (b AND 0x7f :: 8 word) < 128"
proof -
  have "unat (take_bit 7 b) < 2 ^ 7"
    unfolding unsigned_take_bit_eq by (rule take_bit_nat_less_exp)
  then show ?thesis by (simp add: group_mask)
qed

lemma uleb_value_less: "uleb_value bs < 2 ^ (7 * length bs)"
proof (induction bs)
  case Nil
  then show ?case by simp
next
  case (Cons b bs)
  have "unat (b AND 0x7f) + 128 * uleb_value bs < 128 + 128 * uleb_value bs"
    using group_less [of b] by simp
  also have "\<dots> = 128 * Suc (uleb_value bs)" by simp
  also have "\<dots> \<le> 128 * 2 ^ (7 * length bs)"
    using Cons.IH by (intro mult_le_mono2) simp
  also have "\<dots> = 2 ^ (7 * length (b # bs))" by (simp add: power_add)
  finally show ?case by simp
qed

lemma shift_unat: "k \<le> 5 \<Longrightarrow> unat (word_of_nat (7 * k) :: 64 word) = 7 * k"
  by (intro of_nat_inverse [OF refl]) simp

lemma sleb128_loop_decodes:
  assumes "leb_wellformed bs"
    and "mem_bytes m (fr_p s) (length bs) = bs"
    and "filebuf_ok (fr_filebuf s)"
    and "unat (fr_p s) + length bs \<le> unat (fr_l s)"
    and "k + length bs \<le> 5"
  shows "sleb128_loop m s r (word_of_nat (7 * k)) =
           Some (Inr (r OR push_bit (7 * k) (word_of_nat (uleb_value bs)),
                      word_of_nat (7 * (k + length bs)),
                      last bs AND 0x40 \<noteq> 0,
                      s\<lparr>fr_p := fr_p s + word_of_nat (length bs)\<rparr>))"
  using assms
proof (induction bs arbitrary: s r k)
  case Nil
  then show ?case by simp
next
  case (Cons b bs)
  let ?s' = "s\<lparr>fr_p := fr_p s + 1\<rparr>"
  let ?g = "ucast (b AND 0x7f) :: 32 word"
  let ?shift = "word_of_nat (7 * k) :: 64 word"
  from Cons.prems(2) have b: "m (fr_p s) = b" and rest: "mem_bytes m (fr_p s + 1) (length bs) = bs"
    by simp_all
  from Cons.prems(4) have win: "unat (fr_p s) + Suc (length bs) \<le> unat (fr_l s)" by simp
  have get: "get_char m s = Inr (b, ?s')"
    using get_char_ok [OF Cons.prems(3) win] b by simp
  from Cons.prems(5) have k: "k < 5" by simp
  then have un: "unat ?shift = 7 * k" by (intro shift_unat) simp
  with k have lt: "?shift < 32" by (simp add: word_less_nat_alt)
  have shift: "?shift + 7 = word_of_nat (7 * Suc k)" by simp
  show ?case
  proof (cases bs)
    case Nil
    with Cons.prems(1) have last: "b AND 0x80 = 0" by simp
    show ?thesis
      apply (subst sleb128_loop.simps)
      using Nil last get lt un shift by (simp add: unat_eq_zero del: of_nat_add of_nat_mult)
  next
    case (Cons b' bs')
    with Cons.prems(1) have cont: "b AND 0x80 \<noteq> 0" and wf: "leb_wellformed bs" by simp_all
    have win': "unat (fr_p ?s') + length bs \<le> unat (fr_l ?s')"
      using unat_succ_in_window [OF win] win by simp
    from Cons.prems(5) have len: "Suc k + length bs \<le> 5" by simp
    have IH: "sleb128_loop m ?s' (r OR push_bit (7 * k) ?g) (word_of_nat (7 * Suc k)) =
           Some (Inr ((r OR push_bit (7 * k) ?g) OR push_bit (7 * Suc k) (word_of_nat (uleb_value bs)),
                      word_of_nat (7 * (Suc k + length bs)),
                      last bs AND 0x40 \<noteq> 0,
                      ?s'\<lparr>fr_p := fr_p ?s' + word_of_nat (length bs)\<rparr>))"
      using Cons.IH [of ?s' "Suc k" "r OR push_bit (7 * k) ?g"] wf rest Cons.prems(3) win' len
      by simp
    have res: "(r OR push_bit (7 * k) ?g) OR push_bit (7 * Suc k) (word_of_nat (uleb_value bs))
        = r OR push_bit (7 * k) (word_of_nat (uleb_value (b # bs)))"
      by (simp add: group_value push_bit_or push_bit_push_bit or.assoc add.commute del: of_nat_add of_nat_mult)
    have lastb: "last (b # bs) = last bs" using Cons by simp
    show ?thesis
      apply (subst sleb128_loop.simps)
      using cont get lt un shift IH res lastb
      by (simp add: add.assoc del: of_nat_add of_nat_mult uleb_value.simps last.simps)
  qed
qed

lemma sleb128_loop_undefined:
  assumes "leb_wellformed bs"
    and "mem_bytes m (fr_p s) (length bs) = bs"
    and "filebuf_ok (fr_filebuf s)"
    and "unat (fr_p s) + length bs \<le> unat (fr_l s)"
    and "k \<le> 5" and "5 < k + length bs"
  shows "sleb128_loop m s r (word_of_nat (7 * k)) = Some (Inl UndefinedBehaviour)"
  using assms
proof (induction bs arbitrary: s r k)
  case Nil
  then show ?case by simp
next
  case (Cons b bs)
  let ?s' = "s\<lparr>fr_p := fr_p s + 1\<rparr>"
  let ?g = "ucast (b AND 0x7f) :: 32 word"
  let ?shift = "word_of_nat (7 * k) :: 64 word"
  from Cons.prems(2) have b: "m (fr_p s) = b" and rest: "mem_bytes m (fr_p s + 1) (length bs) = bs"
    by simp_all
  from Cons.prems(4) have win: "unat (fr_p s) + Suc (length bs) \<le> unat (fr_l s)" by simp
  have get: "get_char m s = Inr (b, ?s')"
    using get_char_ok [OF Cons.prems(3) win] b by simp
  have un: "unat ?shift = 7 * k" using Cons.prems(5) by (rule shift_unat)
  show ?case
  proof (cases "k = 5")
    case True
    with un have "\<not> ?shift < 32" by (simp add: word_less_nat_alt)
    then show ?thesis
      apply (subst sleb128_loop.simps)
      using get by simp
  next
    case False
    with Cons.prems(5) have k: "k < 5" by simp
    with un have lt: "?shift < 32" by (simp add: word_less_nat_alt)
    from k Cons.prems(6) obtain b' bs' where bs: "bs = b' # bs'" by (cases bs) auto
    with Cons.prems(1) have cont: "b AND 0x80 \<noteq> 0" and wf: "leb_wellformed bs" by simp_all
    have win': "unat (fr_p ?s') + length bs \<le> unat (fr_l ?s')"
      using unat_succ_in_window [OF win] win by simp
    have shift: "?shift + 7 = word_of_nat (7 * Suc k)" by simp
    have IH: "sleb128_loop m ?s' (r OR push_bit (7 * k) ?g) (word_of_nat (7 * Suc k)) =
           Some (Inl UndefinedBehaviour)"
      using Cons.IH [of ?s' "Suc k" "r OR push_bit (7 * k) ?g"] wf rest Cons.prems(3) win' k
        Cons.prems(6) by simp
    show ?thesis
      apply (subst sleb128_loop.simps)
      using cont get lt un shift IH
      by (simp add: del: of_nat_add of_nat_mult)
  qed
qed

text \<open>
  The unsigned decoder inverts every encoding of a 32-bit value, padded ones included: when
  the reader's window holds a well-formed byte sequence \<open>bs\<close> whose unsigned LEB128 value is
  \<open>v\<close>, \<^verbatim>\<open>uleb128\<close> returns \<open>v\<close> and advances the reader by exactly \<open>length bs\<close> bytes. Groups
  at shift 32 or more are consumed and their bits (all zero for such a value) discarded.
\<close>

lemma uleb128_decodes:
  assumes "leb_wellformed bs"
    and "uleb_value bs = unat (v :: 32 word)"
    and "mem_bytes m (fr_p s) (length bs) = bs"
    and "filebuf_ok (fr_filebuf s)"
    and "unat (fr_p s) + length bs \<le> unat (fr_l s)"
  shows "uleb128 m s = Some (Inr (v, s\<lparr>fr_p := fr_p s + word_of_nat (length bs)\<rparr>))"
proof -
  have "unat v < 2 ^ 32" using unsigned_less [of v, where ?'a = nat] by simp
  with assms(2) have "uleb_value bs * 2 ^ (7 * 0) < 2 ^ 35" by simp
  from uleb128_loop_decodes [OF assms(1) assms(3) assms(4) assms(5) this, of 0]
  show ?thesis using assms(2) by (simp add: uleb128_def)
qed

lemma not_mask_disjoint:
  assumes "u < 2 ^ n"
  shows "(word_of_nat u :: 32 word) AND - (push_bit n 1) = 0"
proof -
  have "take_bit n (word_of_nat u :: 32 word) = word_of_nat u"
    using assms by (simp add: take_bit_of_nat take_bit_nat_eq_self)
  then have "(word_of_nat u :: 32 word) = word_of_nat u AND mask n"
    by (simp add: take_bit_eq_mask)
  then have "(word_of_nat u :: 32 word) AND NOT (mask n) = (word_of_nat u AND mask n) AND NOT (mask n)"
    by simp
  also have "\<dots> = 0" by (simp add: and.assoc)
  finally show ?thesis by (simp add: minus_exp_eq_not_mask)
qed

text \<open>
  The signed decoder inverts every encoding of at most five bytes: it returns the 32-bit
  value whose signed reading is the signed LEB128 value of \<open>bs\<close>, sign-extending from the bit
  \<open>0x40\<close> of the last group.
\<close>

lemma sleb128_decodes:
  assumes "leb_wellformed bs"
    and "length bs \<le> 5"
    and "sleb_value bs = sint (v :: 32 word)"
    and "mem_bytes m (fr_p s) (length bs) = bs"
    and "filebuf_ok (fr_filebuf s)"
    and "unat (fr_p s) + length bs \<le> unat (fr_l s)"
  shows "sleb128 m s = Some (Inr (v, s\<lparr>fr_p := fr_p s + word_of_nat (length bs)\<rparr>))"
proof -
  let ?n = "length bs"
  let ?u = "uleb_value bs"
  let ?sign = "last bs AND 0x40 \<noteq> 0"
  let ?shift = "word_of_nat (7 * ?n) :: 64 word"
  from assms(2) have "0 + ?n \<le> 5" by simp
  from sleb128_loop_decodes [OF assms(1) assms(4) assms(5) assms(6) this, of 0]
  have loop: "sleb128_loop m s 0 0 =
      Some (Inr (word_of_nat ?u, ?shift, ?sign, s\<lparr>fr_p := fr_p s + word_of_nat ?n\<rparr>))"
    by simp
  have un: "unat ?shift = 7 * ?n" using assms(2) by (rule shift_unat)
  have v: "v = word_of_int (sleb_value bs)" using assms(3) by simp
  have final: "(if ?sign \<and> ?shift < 32 then word_of_nat ?u OR - (push_bit (unat ?shift) 1)
                else word_of_nat ?u) = v"
  proof (cases ?sign)
    case False
    then show ?thesis using v by (simp add: sleb_value_def)
  next
    case True
    show ?thesis
    proof (cases "?shift < 32")
      case lt: True
      have "(word_of_nat ?u :: 32 word) OR - (push_bit (7 * ?n) 1)
          = word_of_nat ?u + - (push_bit (7 * ?n) 1)"
        by (rule disjunctive_add_eq_or [symmetric]) (rule not_mask_disjoint [OF uleb_value_less])
      also have "\<dots> = word_of_int (int ?u - 2 ^ (7 * ?n))"
        by simp
      also have "\<dots> = v" using True v by (simp add: sleb_value_def)
      finally show ?thesis using True lt un by simp
    next
      case ge: False
      with un have "32 \<le> 7 * ?n" by (simp add: word_less_nat_alt)
      then have "(2 :: 32 word) ^ (7 * ?n) = 0" by simp
      then have "(word_of_int (int ?u - 2 ^ (7 * ?n)) :: 32 word) = word_of_nat ?u"
        by simp
      then show ?thesis using True ge v by (simp add: sleb_value_def)
    qed
  qed
  show ?thesis
    unfolding sleb128_def using loop final by (simp del: of_nat_mult)
qed

text \<open>
  On a well-formed encoding of six or more bytes the signed decoder shifts an \<^verbatim>\<open>int\<close> by 35:
  it has no guard like the one in \<^verbatim>\<open>uleb128\<close>, and the behaviour is undefined.
\<close>

lemma sleb128_undefined_beyond_five:
  assumes "leb_wellformed bs"
    and "5 < length bs"
    and "mem_bytes m (fr_p s) (length bs) = bs"
    and "filebuf_ok (fr_filebuf s)"
    and "unat (fr_p s) + length bs \<le> unat (fr_l s)"
  shows "sleb128 m s = Some (Inl UndefinedBehaviour)"
proof -
  from assms(2) have "5 < 0 + length bs" by simp
  from sleb128_loop_undefined [OF assms(1) assms(3) assms(4) assms(5) _ this, of 0]
  show ?thesis by (simp add: sleb128_def)
qed

text \<open>
  Claim C5 at a concrete input (the claim is not met by the code). The six bytes
  \<open>80 F8 FF FF FF 7F\<close> are a well-formed signed LEB128 encoding of \<open>-1024\<close>, a 32-bit value.
  \<^verbatim>\<open>sleb128\<close> does not return \<open>-1024\<close> on them: at the sixth byte it evaluates
  \<^verbatim>\<open>(c & 0x7f) << 35\<close> on an \<^verbatim>\<open>int\<close>, which is undefined behaviour.
\<close>

theorem sleb128_padded_failing_input:
  "leb_wellformed sleb_minus_1024_padded
   \<and> sleb_value sleb_minus_1024_padded = - 1024
   \<and> sleb128 (memory_of 0x1000 sleb_minus_1024_padded) (reader_at 0x1000 6)
       = Some (Inl UndefinedBehaviour)"
  by (simp add: sleb128_def sleb128_loop.simps get_char_def memory_of_def reader_at_def
      freader_ok_def filebuf_ok_def sleb_minus_1024_padded_def Let_def sleb_value_def)

text \<open>The two-byte encoding of the same value is decoded.\<close>

lemma sleb128_two_bytes: "leb_wellformed [0x80, 0x78] \<and> sleb_value [0x80, 0x78] = - 1024 \<and> 
   sleb128 (memory_of 0x1000 [0x80, 0x78]) (reader_at 0x1000 2) = Some (Inr (- 1024, (reader_at 0x1000 2)\<lparr>fr_p := 0x1002\<rparr>))"
  by (simp add: sleb128_def sleb128_loop.simps get_char_def memory_of_def reader_at_def
      freader_ok_def filebuf_ok_def Let_def sleb_value_def)

section \<open>Properties of the attribute comparison\<close>

lemma attribute_value_eq_refl: "attribute_value_eq v v"
  by (simp add: attribute_value_eq_def pool_string_eq_def)

lemma attribute_eq_refl: "attribute_eq a a"
  by (simp add: attribute_eq_def attribute_value_eq_refl)

lemma find_by_name_member:
  "a \<in> set X \<Longrightarrow> \<exists>b. find_by_name (a_name a) X = Some b \<and> a_name b = a_name a \<and> b \<in> set X"
  by (induction X) auto

lemma find_by_name_unique:
  assumes "a \<in> set X" and "\<not> nonfatal (a_name a)"
    and "distinct (map a_name (filter (\<lambda>a. \<not> nonfatal (a_name a)) X))"
  shows "find_by_name (a_name a) X = Some a"
proof -
  let ?F = "filter (\<lambda>a. \<not> nonfatal (a_name a)) X"
  from find_by_name_member [OF assms(1)] obtain b where
    found: "find_by_name (a_name a) X = Some b" and name: "a_name b = a_name a" and b: "b \<in> set X"
    by blast
  from assms(1,2) have "a \<in> set ?F" by simp
  moreover from b name assms(2) have "b \<in> set ?F" by simp
  moreover from assms(3) have "inj_on a_name (set ?F)" by (simp add: distinct_map)
  ultimately have "b = a" using name by (auto dest: inj_onD)
  with found show ?thesis by simp
qed

lemma conflict_in_x_self:
  assumes "distinct (map a_name (filter (\<lambda>a. \<not> nonfatal (a_name a)) X))"
    and "set xs \<subseteq> set X"
  shows "conflict_in_x nonfatal string_hash xs X = None"
  using assms(2)
proof (induction xs)
  case Nil
  then show ?case by simp
next
  case (Cons a xs)
  then have IH: "conflict_in_x nonfatal string_hash xs X = None" and a: "a \<in> set X" by simp_all
  show ?case
  proof (cases "nonfatal (a_name a)")
    case True
    with IH show ?thesis by simp
  next
    case False
    from find_by_name_unique [OF a False assms(1)] have "find_by_name (a_name a) X = Some a" .
    with False IH show ?thesis by (simp add: attribute_eq_refl Let_def)
  qed
qed

lemma missing_in_x_self:
  assumes "set ys \<subseteq> set X"
  shows "missing_in_x nonfatal X ys = None"
  using assms
proof (induction ys)
  case Nil
  then show ?case by simp
next
  case (Cons a ys)
  then have IH: "missing_in_x nonfatal X ys = None" and a: "a \<in> set X" by simp_all
  from find_by_name_member [OF a] obtain b where "find_by_name (a_name a) X = Some b" by blast
  with IH show ?case by (simp add: Let_def)
qed

text \<open>
  Claim C2, as amended. For every attribute sequence \<open>X\<close> in which no two fatal attributes
  (those with \<^verbatim>\<open>nonfatal_attribute(name)\<close> false) have the same name,
  \<^verbatim>\<open>find_attribute_conflict(X, X)\<close> returns the sentinel \<^verbatim>\<open>dw::at::none\<close>, whatever the table of
  nonfatal attributes and the hashes of the strings are.
\<close>

theorem find_attribute_conflict_reflexive:
  assumes "distinct (map a_name (filter (\<lambda>a. \<not> nonfatal_attribute (a_name a)) X))"
  shows "find_attribute_conflict nonfatal_attribute string_hash X X = at_none"
  using conflict_in_x_self [OF assms, of X string_hash] missing_in_x_self [of X X nonfatal_attribute]
  by (simp add: find_attribute_conflict_def)

theorem find_attribute_conflict_reflexive_witness:
  "find_attribute_conflict nonfatal_named_in_spec example_string_hash
     [type_attr_int, type_attr_long\<lparr>a_name := 0x03\<rparr>] [type_attr_int, type_attr_long\<lparr>a_name := 0x03\<rparr>]
   = at_none"
  using find_attribute_conflict_reflexive [of nonfatal_named_in_spec
      "[type_attr_int, type_attr_long\<lparr>a_name := 0x03\<rparr>]" example_string_hash]
  by (simp add: nonfatal_named_in_spec_def type_attr_int_def type_attr_long_def at_type_def)

text \<open>
  Claim C2 as stated fails on a sequence that repeats a fatal name with another value: the
  second attribute is compared with the first attribute of that name, which
  \<^verbatim>\<open>std::find_if\<close> returns, and \<^verbatim>\<open>find_attribute_conflict(X, X)\<close> returns \<^verbatim>\<open>dw::at::type\<close>.
\<close>

theorem find_attribute_conflict_duplicate_name_counterexample:
  "find_attribute_conflict nonfatal_named_in_spec example_string_hash
     [type_attr_int, type_attr_long] [type_attr_int, type_attr_long] = at_type
   \<and> at_type \<noteq> at_none"
  by (simp add: find_attribute_conflict_def nonfatal_named_in_spec_def type_attr_int_def
      type_attr_long_def at_type_def at_none_def type_equivalent_def av_has_def has_type_def
      type_string_def type_reference_def example_string_hash_def attribute_eq_def
      attribute_value_eq_def pool_string_eq_def)

section \<open>Properties of the report filter\<close>







section \<open>Properties of the conflict analysis\<close>






















end
